theory Spec2Isabelle
  imports Main "HOL-Library.AList"
begin

section \<open>The Bhadwa game server: rooms, votes and the close of voting\<close>

text \<open>
  A shallow embedding of \<^verbatim>\<open>app.py\<close>. The global registry \<^verbatim>\<open>rooms\<close> is passed
  explicitly: every handler takes the registry and returns its response together with
  the registry it leaves behind. Python dictionaries whose iteration order the code
  relies on (\<^verbatim>\<open>players\<close>, \<^verbatim>\<open>votes\<close>) are association lists in insertion
  order; \<^verbatim>\<open>d[k] = v\<close> is \<open>AList.update\<close> (replace in place, or append),
  \<^verbatim>\<open>d.get(k)\<close> is \<open>map_of\<close>. The registry itself is only ever looked up by
  key, so it is a map. Each call of \<^verbatim>\<open>random.choice\<close> takes the number drawn by
  the random source as an explicit argument.
\<close>

subsection \<open>Data\<close>

record player_state =
  is_bhadwa :: bool
  voted_today :: bool

record room =
  players :: "(string \<times> player_state) list"
  bhadwa :: string
  votes :: "(string \<times> int) list"
  game_active :: bool
  result :: "string option"

type_synonym rooms = "string \<rightharpoonup> room"

text \<open>
  The JSON bodies the handlers return, with the HTTP status beside them
  (\<^verbatim>\<open>jsonify(...)\<close> alone is status 200).
\<close>

datatype body =
    Message string
  | Created string string
  | Error string
  | ErrorResult string "string option"

type_synonym response = "body \<times> nat"

datatype py_error = IndexError | ValueError

subsection \<open>Library functions the code calls\<close>

text \<open>
  \<^verbatim>\<open>random.choice(seq)\<close> is \<^verbatim>\<open>seq[randbelow(len(seq))]\<close> and raises
  \<^verbatim>\<open>IndexError\<close> on an empty sequence. The argument \<open>r\<close> is the draw of the
  random source, reduced into the range of indices.
\<close>

definition choice :: "nat \<Rightarrow> 'a list \<Rightarrow> py_error + 'a" where
  "choice r xs = (if xs = [] then Inl IndexError else Inr (xs ! (r mod length xs)))"

text \<open>\<^verbatim>\<open>max(iterable)\<close> raises \<^verbatim>\<open>ValueError\<close> on an empty iterable.\<close>

fun py_max :: "int list \<Rightarrow> py_error + int" where
  "py_max [] = Inl ValueError"
| "py_max (x # xs) = Inr (fold max xs x)"

text \<open>\<^verbatim>\<open>rooms.get(room_id)\<close> where the key sent by the caller may be missing.\<close>

definition rooms_get :: "rooms \<Rightarrow> string option \<Rightarrow> room option" where
  "rooms_get rs room_id = (case room_id of None \<Rightarrow> None | Some k \<Rightarrow> rs k)"

text \<open>\<^verbatim>\<open>name in d\<close> for a name that may be missing from the request.\<close>

definition in_dict :: "string option \<Rightarrow> (string \<times> 'v) list \<Rightarrow> bool" where
  "in_dict name d = (case name of None \<Rightarrow> False | Some k \<Rightarrow> k \<in> fst ` set d)"

subsection \<open>The close of voting\<close>

text \<open>
  Lines 35--39 of \<^verbatim>\<open>end_voting\<close>: the maximum count, the candidates that reach it
  in the order of the dictionary, and the random pick among them.
\<close>

definition candidates :: "(string \<times> int) list \<Rightarrow> int \<Rightarrow> string list" where
  "candidates vs max_votes = map fst (filter (\<lambda>(p, v). v = max_votes) vs)"

definition eliminated :: "nat \<Rightarrow> (string \<times> int) list \<Rightarrow> py_error + string" where
  "eliminated r vs =
     (case py_max (map snd vs) of
        Inl e \<Rightarrow> Inl e
      | Inr max_votes \<Rightarrow> choice r (candidates vs max_votes))"

text \<open>
  The body of \<^verbatim>\<open>end_voting\<close> on the room found. An exception after
  \<^verbatim>\<open>game_active\<close> was cleared would end the timer thread and leave the room as
  it is at that point.
\<close>

definition close_room :: "nat \<Rightarrow> room \<Rightarrow> room" where
  "close_room r rm =
     (let rm1 = rm\<lparr>game_active := False\<rparr> in
      if votes rm1 = [] then rm1\<lparr>result := Some ''No votes cast. No elimination.''\<rparr>
      else
        (case eliminated r (votes rm1) of
           Inl e \<Rightarrow> rm1
         | Inr el \<Rightarrow>
             if el = bhadwa rm1
             then rm1\<lparr>result := Some (''Bhadwa '' @ el @ '' was eliminated. Innocents win!'')\<rparr>
             else rm1\<lparr>result := Some (el @ '' was eliminated. Bhadwa wins.'')\<rparr>))"

definition end_voting :: "nat \<Rightarrow> rooms \<Rightarrow> string \<Rightarrow> rooms" where
  "end_voting r rs room_id =
     (case rs room_id of
        None \<Rightarrow> rs
      | Some rm \<Rightarrow> if \<not> game_active rm then rs else rs(room_id \<mapsto> close_room r rm))"

subsection \<open>The request handlers\<close>

text \<open>
  Each handler takes the fields of the JSON request, \<open>None\<close> for a field that is
  missing or null, and returns its response and the registry. Where a Python exception
  would escape a handler (an empty sequence given to \<^verbatim>\<open>random.choice\<close>, a key
  missing from a dictionary that is indexed), the model returns what Flask answers for
  it, status 500, and leaves the registry as it is. The checks before these places
  exclude every such case, as \<open>create_room_valid\<close> and \<open>vote_open\<close> below show.

  The dictionary comprehension of \<^verbatim>\<open>create_room\<close>: one assignment per name, in
  the order of the list.
\<close>

definition new_players :: "string \<Rightarrow> string list \<Rightarrow> (string \<times> player_state) list" where
  "new_players b names =
     fold (\<lambda>name d. AList.update name \<lparr>is_bhadwa = (name = b), voted_today = False\<rparr> d) names []"

definition create_room ::
  "nat \<Rightarrow> rooms \<Rightarrow> string option \<Rightarrow> string list option \<Rightarrow> response \<times> rooms" where
  "create_room r rs room_id player_names =
     (case (room_id, player_names) of
        (Some rid, Some names) \<Rightarrow>
          if rid = [] \<or> names = [] then ((Error ''room_id and player_names required'', 400), rs)
          else if length names < 2 \<or> length names > 20
          then ((Error ''Number of players must be between 2 and 20'', 400), rs)
          else if card (set names) \<noteq> length names
          then ((Error ''Player names must be unique'', 400), rs)
          else
            (case choice r names of
               Inl e \<Rightarrow> ((Error ''Internal Server Error'', 500), rs)
             | Inr b \<Rightarrow>
                 ((Created (''Room '' @ rid @ '' created with players.'') b, 200),
                  rs(rid \<mapsto> \<lparr>players = new_players b names, bhadwa = b, votes = [],
                              game_active = True, result = None\<rparr>)))
      | _ \<Rightarrow> ((Error ''room_id and player_names required'', 400), rs))"

definition vote ::
  "rooms \<Rightarrow> string option \<Rightarrow> string option \<Rightarrow> string option \<Rightarrow> response \<times> rooms" where
  "vote rs room_id voter vote_for =
     (case rooms_get rs room_id of
        None \<Rightarrow> ((Error ''Room does not exist'', 404), rs)
      | Some rm \<Rightarrow>
          if \<not> game_active rm
          then ((ErrorResult ''Voting period has ended'' (result rm), 200), rs)
          else if \<not> in_dict voter (players rm) then ((Error ''Voter not in room'', 400), rs)
          else if \<not> in_dict vote_for (players rm)
          then ((Error ''Vote target not in room'', 400), rs)
          else
            (case (room_id, voter, vote_for) of
               (Some rid, Some v, Some t) \<Rightarrow>
                 (case map_of (players rm) v of
                    None \<Rightarrow> ((Error ''Internal Server Error'', 500), rs)
                  | Some st \<Rightarrow>
                      if voted_today st
                      then ((Error ''You have already voted today'', 400), rs)
                      else
                        ((Message (v @ '' voted for '' @ t), 200),
                         rs(rid \<mapsto> rm\<lparr>
                           players := AList.map_entry v (\<lambda>st. st\<lparr>voted_today := True\<rparr>)
                                        (players rm),
                           votes := AList.update t
                                      ((case map_of (votes rm) t of None \<Rightarrow> 0 | Some c \<Rightarrow> c) + 1)
                                      (votes rm)\<rparr>)))
             | _ \<Rightarrow> ((Error ''Internal Server Error'', 500), rs)))"

definition reset_votes :: "rooms \<Rightarrow> string option \<Rightarrow> response \<times> rooms" where
  "reset_votes rs room_id =
     (case rooms_get rs room_id of
        None \<Rightarrow> ((Error ''Room does not exist'', 404), rs)
      | Some rm \<Rightarrow>
          if \<not> game_active rm then ((ErrorResult ''Game has ended'' (result rm), 200), rs)
          else
            (case room_id of
               None \<Rightarrow> ((Error ''Internal Server Error'', 500), rs)
             | Some rid \<Rightarrow>
                 ((Message ''Votes reset, new day started'', 200),
                  rs(rid \<mapsto> rm\<lparr>players :=
                       map (\<lambda>(name, st). (name, st\<lparr>voted_today := False\<rparr>)) (players rm)\<rparr>))))"

subsection \<open>Runs of the server\<close>

text \<open>
  What can happen to the registry: one of the three mutating requests arrives, or the
  timer thread started by some \<^verbatim>\<open>create_room\<close> wakes up and calls
  \<^verbatim>\<open>end_voting\<close>. A run is a sequence of such events from the empty registry.
\<close>

datatype event =
    CreateRoom nat "string option" "string list option"
  | CastVote "string option" "string option" "string option"
  | ResetDay "string option"
  | TimerFires nat string

fun step :: "rooms \<Rightarrow> event \<Rightarrow> rooms" where
  "step rs (CreateRoom r room_id player_names) = snd (create_room r rs room_id player_names)"
| "step rs (CastVote room_id voter vote_for) = snd (vote rs room_id voter vote_for)"
| "step rs (ResetDay room_id) = snd (reset_votes rs room_id)"
| "step rs (TimerFires r room_id) = end_voting r rs room_id"

definition run :: "rooms \<Rightarrow> event list \<Rightarrow> rooms" where
  "run rs es = foldl step rs es"

text \<open>
  The events that leave the voting day of room \<open>rid\<close> running: any vote, and any
  creation, reset or timer wake-up that is for another room.
\<close>

fun keeps_day :: "string \<Rightarrow> event \<Rightarrow> bool" where
  "keeps_day rid (CreateRoom r room_id player_names) = (room_id \<noteq> Some rid)"
| "keeps_day rid (CastVote room_id voter vote_for) = True"
| "keeps_day rid (ResetDay room_id) = (room_id \<noteq> Some rid)"
| "keeps_day rid (TimerFires r room_id) = (room_id \<noteq> rid)"

subsection \<open>Reading a response\<close>

text \<open>
  A response reports success when its body carries no \<^verbatim>\<open>error\<close> key. The status
  code alone does not tell: the handlers answer a closed room with an error body and
  status 200.
\<close>

fun succeeded :: "response \<Rightarrow> bool" where
  "succeeded (Message m, code) = (code = 200)"
| "succeeded (Created m b, code) = (code = 200)"
| "succeeded (Error e, code) = False"
| "succeeded (ErrorResult e res, code) = False"

subsection \<open>Example rooms\<close>

text \<open>The tally \<^verbatim>\<open>{A: 3, B: 3, C: 1}\<close> in an open room whose hidden role is B.\<close>

definition tied_room :: room where
  "tied_room =
     \<lparr>players = [(''A'', \<lparr>is_bhadwa = False, voted_today = True\<rparr>),
                 (''B'', \<lparr>is_bhadwa = True, voted_today = True\<rparr>),
                 (''C'', \<lparr>is_bhadwa = False, voted_today = True\<rparr>)],
      bhadwa = ''B'', votes = [(''A'', 3), (''B'', 3), (''C'', 1)],
      game_active = True, result = None\<rparr>"

text \<open>A room just created for A, B and C, with B in the hidden role.\<close>

definition fresh_room :: room where
  "fresh_room =
     \<lparr>players = [(''A'', \<lparr>is_bhadwa = False, voted_today = False\<rparr>),
                 (''B'', \<lparr>is_bhadwa = True, voted_today = False\<rparr>),
                 (''C'', \<lparr>is_bhadwa = False, voted_today = False\<rparr>)],
      bhadwa = ''B'', votes = [], game_active = True, result = None\<rparr>"

text \<open>A room after the close of voting, with its result stored.\<close>

definition closed_room :: room where
  "closed_room =
     \<lparr>players = [(''A'', \<lparr>is_bhadwa = False, voted_today = True\<rparr>),
                 (''B'', \<lparr>is_bhadwa = True, voted_today = False\<rparr>),
                 (''C'', \<lparr>is_bhadwa = False, voted_today = True\<rparr>)],
      bhadwa = ''B'', votes = [(''A'', 2)],
      game_active = False, result = Some ''A was eliminated. Bhadwa wins.''\<rparr>"

text \<open>Twenty distinct names, the largest list \<^verbatim>\<open>create_room\<close> accepts.\<close>

definition twenty_names :: "string list" where
  "twenty_names = [''a'', ''b'', ''c'', ''d'', ''e'', ''f'', ''g'', ''h'', ''i'', ''j'',
                   ''k'', ''l'', ''m'', ''n'', ''o'', ''p'', ''q'', ''r'', ''s'', ''t'']"

text \<open>The registry after A has voted for B in the room just created.\<close>

definition after_first_vote :: rooms where
  "after_first_vote = snd (vote [''den'' \<mapsto> fresh_room] (Some ''den'') (Some ''A'') (Some ''B''))"

subsection \<open>Vocabulary for the statements about votes\<close>

text \<open>
  Names for three expressions of \<^verbatim>\<open>vote\<close>: the count \<^verbatim>\<open>votes.get(t, 0)\<close>, the
  test \<^verbatim>\<open>players[v]["voted_today"]\<close>, and the room after the two assignments that
  record a vote.
\<close>

definition votes_get :: "(string \<times> int) list \<Rightarrow> string \<Rightarrow> int" where
  "votes_get vs t = (case map_of vs t of None \<Rightarrow> 0 | Some c \<Rightarrow> c)"

definition has_voted :: "room \<Rightarrow> string \<Rightarrow> bool" where
  "has_voted rm v = (case map_of (players rm) v of None \<Rightarrow> False | Some st \<Rightarrow> voted_today st)"

definition record_vote :: "room \<Rightarrow> string \<Rightarrow> string \<Rightarrow> room" where
  "record_vote rm v t =
     rm\<lparr>players := AList.map_entry v (\<lambda>st. st\<lparr>voted_today := True\<rparr>) (players rm),
        votes := AList.update t ((case map_of (votes rm) t of None \<Rightarrow> 0 | Some c \<Rightarrow> c) + 1)
                   (votes rm)\<rparr>"

text \<open>One vote for the same target by each voter of a list, in order, on one room.\<close>

fun cast_votes :: "rooms \<Rightarrow> string \<Rightarrow> string \<Rightarrow> string list \<Rightarrow> response list \<times> rooms" where
  "cast_votes rs rid t [] = ([], rs)"
| "cast_votes rs rid t (v # vs) =
     (case vote rs (Some rid) (Some v) (Some t) of
        (resp, rs1) \<Rightarrow>
          (case cast_votes rs1 rid t vs of (resps, rs2) \<Rightarrow> (resp # resps, rs2)))"

section \<open>Properties\<close>

subsection \<open>Dictionaries and library functions\<close>

lemma update_fresh: "k \<notin> fst ` set al \<Longrightarrow> AList.update k v al = al @ [(k, v)]"
  by (induction al) auto

lemma fold_update_distinct:
  "distinct names \<Longrightarrow> set names \<inter> fst ` set acc = {} \<Longrightarrow>
   fold (\<lambda>name d. AList.update name (g name) d) names acc = acc @ map (\<lambda>n. (n, g n)) names"
proof (induction names arbitrary: acc)
  case Nil
  then show ?case by simp
next
  case (Cons n ns)
  have fresh: "n \<notin> fst ` set acc" using Cons.prems by auto
  have "set ns \<inter> fst ` set (acc @ [(n, g n)]) = {}" using Cons.prems by auto
  with Cons show ?case by (simp add: update_fresh [OF fresh])
qed

lemma new_players_distinct:
  "distinct names \<Longrightarrow>
   new_players b names = map (\<lambda>n. (n, \<lparr>is_bhadwa = (n = b), voted_today = False\<rparr>)) names"
  unfolding new_players_def using fold_update_distinct [of names "[]"] by simp

lemma card_set_length: "(card (set xs) = length xs) = distinct xs"
  using card_distinct distinct_card by blast

lemma choice_mem: "choice r xs = Inr x \<Longrightarrow> x \<in> set xs"
  by (auto simp: choice_def split: if_splits)

lemma choice_nonempty: "xs \<noteq> [] \<Longrightarrow> \<exists>x. choice r xs = Inr x"
  by (simp add: choice_def)

lemma choice_index: "x \<in> set xs \<Longrightarrow> \<exists>r. choice r xs = Inr x"
proof -
  assume "x \<in> set xs"
  then obtain i where "i < length xs" "xs ! i = x" by (auto simp: in_set_conv_nth)
  then have "choice i xs = Inr x" by (auto simp: choice_def)
  then show ?thesis ..
qed

lemma py_max_Max: "xs \<noteq> [] \<Longrightarrow> py_max xs = Inr (Max (set xs))"
  by (cases xs) (simp_all add: Max.set_eq_fold del: set_simps)

lemma succeeded_code: "succeeded resp \<Longrightarrow> snd resp = 200"
  by (cases resp rule: succeeded.cases) auto

subsection \<open>Room creation\<close>

lemma count_flag:
  "distinct names \<Longrightarrow> b \<in> set names \<Longrightarrow> length (filter (\<lambda>n. n = b) names) = 1"
  by (induction names) (auto simp: filter_empty_conv)

lemma create_room_ok:
  assumes "create_room r rs room_id player_names = (resp, rs')" and "snd resp = 200"
  shows "\<exists>rid names b rm.
           room_id = Some rid \<and> rid \<noteq> [] \<and> player_names = Some names \<and>
           2 \<le> length names \<and> length names \<le> 20 \<and> distinct names \<and>
           choice r names = Inr b \<and>
           resp = (Created (''Room '' @ rid @ '' created with players.'') b, 200) \<and>
           rs' = rs(rid \<mapsto> rm) \<and>
           rm = \<lparr>players = map (\<lambda>n. (n, \<lparr>is_bhadwa = (n = b), voted_today = False\<rparr>)) names,
                  bhadwa = b, votes = [], game_active = True, result = None\<rparr>"
  using assms
  by (auto simp: create_room_def card_distinct new_players_distinct
           split: option.splits if_splits sum.splits)

lemma create_room_succeededE:
  assumes "create_room r rs room_id player_names = (resp, rs')" and "succeeded resp"
  obtains rid names b rm where
    "room_id = Some rid" "player_names = Some names"
    "distinct names" "choice r names = Inr b"
    "resp = (Created (''Room '' @ rid @ '' created with players.'') b, 200)"
    "rs' = rs(rid \<mapsto> rm)"
    "rm = \<lparr>players = map (\<lambda>n. (n, \<lparr>is_bhadwa = (n = b), voted_today = False\<rparr>)) names,
               bhadwa = b, votes = [], game_active = True, result = None\<rparr>"
  using create_room_ok [OF assms(1) succeeded_code [OF assms(2)]] by (elim exE conjE)

text \<open>
  C1. Whenever \<^verbatim>\<open>create_room\<close> succeeds, the room it stores has the submitted
  names as its players, its \<^verbatim>\<open>bhadwa\<close> field is one of those names, that player's
  \<^verbatim>\<open>is_bhadwa\<close> flag is set, no other player's flag is set, and so exactly one
  flag is set in the room. The response reports the same player.
\<close>

theorem create_room_one_hidden_role:
  assumes "create_room r rs room_id player_names = (resp, rs')" and "succeeded resp"
  shows "\<exists>rid names rm.
           room_id = Some rid \<and> player_names = Some names \<and> rs' rid = Some rm \<and>
           map fst (players rm) = names \<and>
           bhadwa rm \<in> set names \<and>
           (\<exists>st. map_of (players rm) (bhadwa rm) = Some st \<and> is_bhadwa st) \<and>
           (\<forall>n st. (n, st) \<in> set (players rm) \<and> is_bhadwa st \<longrightarrow> n = bhadwa rm) \<and>
           length (filter (\<lambda>(n, st). is_bhadwa st) (players rm)) = 1 \<and>
           fst resp = Created (''Room '' @ rid @ '' created with players.'') (bhadwa rm)"
proof -
  from assms obtain rid names b rm where
    ids: "room_id = Some rid" "player_names = Some names" and
    names: "distinct names" "choice r names = Inr b" and
    resp: "resp = (Created (''Room '' @ rid @ '' created with players.'') b, 200)" and
    rs': "rs' = rs(rid \<mapsto> rm)" and
    rm: "rm = \<lparr>players = map (\<lambda>n. (n, \<lparr>is_bhadwa = (n = b), voted_today = False\<rparr>)) names,
               bhadwa = b, votes = [], game_active = True, result = None\<rparr>"
    by (rule create_room_succeededE)
  have b: "b \<in> set names" using names(2) by (rule choice_mem)
  have pl: "players rm = map (\<lambda>n. (n, \<lparr>is_bhadwa = (n = b), voted_today = False\<rparr>)) names"
    and bh: "bhadwa rm = b" by (simp_all add: rm)
  have keys: "map fst (players rm) = names" by (simp add: pl comp_def)
  have "map_of (players rm) b = Some \<lparr>is_bhadwa = True, voted_today = False\<rparr>"
    unfolding pl using b by (induction names) auto
  then have flag: "\<exists>st. map_of (players rm) (bhadwa rm) = Some st \<and> is_bhadwa st"
    by (simp add: bh)
  have only: "\<forall>n st. (n, st) \<in> set (players rm) \<and> is_bhadwa st \<longrightarrow> n = bhadwa rm"
    by (auto simp: pl bh)
  have "filter (\<lambda>(n, st). is_bhadwa st) (players rm) =
        map (\<lambda>n. (n, \<lparr>is_bhadwa = (n = b), voted_today = False\<rparr>)) (filter (\<lambda>n. n = b) names)"
    by (simp add: pl filter_map comp_def)
  then have one: "length (filter (\<lambda>(n, st). is_bhadwa st) (players rm)) = 1"
    using count_flag [OF names(1) b] by simp
  have stored: "rs' rid = Some rm" by (simp add: rs')
  have body: "fst resp = Created (''Room '' @ rid @ '' created with players.'') (bhadwa rm)"
    by (simp add: resp bh)
  have bmem: "bhadwa rm \<in> set names" using b by (simp add: bh)
  from ids stored keys bmem flag only one body show ?thesis by blast
qed

theorem create_room_one_hidden_role_witness:
  "create_room 7 Map.empty (Some ''den'') (Some [''A'', ''B'', ''C'']) =
     ((Created ''Room den created with players.'' ''B'', 200),
      [''den'' \<mapsto> \<lparr>players = [(''A'', \<lparr>is_bhadwa = False, voted_today = False\<rparr>),
                                (''B'', \<lparr>is_bhadwa = True, voted_today = False\<rparr>),
                                (''C'', \<lparr>is_bhadwa = False, voted_today = False\<rparr>)],
                     bhadwa = ''B'', votes = [], game_active = True, result = None\<rparr>]) \<and>
   succeeded (fst (create_room 7 Map.empty (Some ''den'') (Some [''A'', ''B'', ''C'']))) \<and>
   (\<exists>rid names rm.
      Some ''den'' = Some rid \<and> Some [''A'', ''B'', ''C''] = Some names \<and>
      snd (create_room 7 Map.empty (Some ''den'') (Some [''A'', ''B'', ''C''])) rid = Some rm \<and>
      map fst (players rm) = names \<and>
      bhadwa rm \<in> set names \<and>
      (\<exists>st. map_of (players rm) (bhadwa rm) = Some st \<and> is_bhadwa st) \<and>
      (\<forall>n st. (n, st) \<in> set (players rm) \<and> is_bhadwa st \<longrightarrow> n = bhadwa rm) \<and>
      length (filter (\<lambda>(n, st). is_bhadwa st) (players rm)) = 1 \<and>
      fst (fst (create_room 7 Map.empty (Some ''den'') (Some [''A'', ''B'', ''C'']))) =
        Created (''Room '' @ rid @ '' created with players.'') (bhadwa rm))"
proof -
  let ?out = "create_room 7 Map.empty (Some ''den'') (Some [''A'', ''B'', ''C''])"
  have made: "?out =
     ((Created ''Room den created with players.'' ''B'', 200),
      [''den'' \<mapsto> \<lparr>players = [(''A'', \<lparr>is_bhadwa = False, voted_today = False\<rparr>),
                                (''B'', \<lparr>is_bhadwa = True, voted_today = False\<rparr>),
                                (''C'', \<lparr>is_bhadwa = False, voted_today = False\<rparr>)],
                     bhadwa = ''B'', votes = [], game_active = True, result = None\<rparr>])"
    by (simp add: create_room_def choice_def new_players_def card_set_length)
  have pair: "?out = (fst ?out, snd ?out)" by simp
  have ok: "succeeded (fst ?out)" by (simp add: made)
  show ?thesis
    by (intro conjI) (rule made, rule ok, rule create_room_one_hidden_role [OF pair ok])
qed

subsection \<open>The close of voting\<close>

lemma set_candidates: "set (candidates vs m) = {p. (p, m) \<in> set vs}"
  by (auto simp: candidates_def image_iff)

lemma candidates_Max_nonempty:
  assumes "vs \<noteq> []"
  shows "candidates vs (Max (snd ` set vs)) \<noteq> []"
proof -
  have "Max (snd ` set vs) \<in> snd ` set vs"
    using assms by (intro Max_in) auto
  then obtain p where "(p, Max (snd ` set vs)) \<in> set vs" by force
  then have "p \<in> set (candidates vs (Max (snd ` set vs)))" by (simp add: set_candidates)
  then show ?thesis by auto
qed

lemma eliminated_unfold:
  "vs \<noteq> [] \<Longrightarrow> eliminated r vs = choice r (candidates vs (Max (snd ` set vs)))"
  by (simp add: eliminated_def py_max_Max)

lemma eliminated_total:
  assumes "vs \<noteq> []"
  shows "\<exists>el. eliminated r vs = Inr el \<and> (el, Max (snd ` set vs)) \<in> set vs"
proof -
  from candidates_Max_nonempty [OF assms] obtain el
    where el: "choice r (candidates vs (Max (snd ` set vs))) = Inr el"
    using choice_nonempty by blast
  from choice_mem [OF el] have "(el, Max (snd ` set vs)) \<in> set vs"
    by (simp add: set_candidates)
  with el assms show ?thesis by (simp add: eliminated_unfold)
qed

lemma eliminated_every_max:
  assumes "(p, Max (snd ` set vs)) \<in> set vs"
  shows "\<exists>r. eliminated r vs = Inr p"
proof -
  from assms have ne: "vs \<noteq> []" by auto
  from assms have "p \<in> set (candidates vs (Max (snd ` set vs)))" by (simp add: set_candidates)
  from choice_index [OF this] show ?thesis by (simp add: eliminated_unfold [OF ne])
qed

lemma close_room_result:
  assumes "votes rm \<noteq> []" and "eliminated r (votes rm) = Inr el"
  shows "close_room r rm = rm\<lparr>game_active := False,
           result := Some (if el = bhadwa rm then ''Bhadwa '' @ el @ '' was eliminated. Innocents win!''
                           else el @ '' was eliminated. Bhadwa wins.'')\<rparr>"
  using assms by (simp add: close_room_def Let_def)

lemma close_room_empty:
  "votes rm = [] \<Longrightarrow>
   close_room r rm = rm\<lparr>game_active := False, result := Some ''No votes cast. No elimination.''\<rparr>"
  by (simp add: close_room_def Let_def)

lemma end_voting_open:
  "rs rid = Some rm \<Longrightarrow> game_active rm \<Longrightarrow> end_voting r rs rid = rs(rid \<mapsto> close_room r rm)"
  by (simp add: end_voting_def)

text \<open>
  C2. In an open room with a non-empty tally, \<^verbatim>\<open>end_voting\<close> always picks a player,
  and the player picked holds the maximum count of the tally; a player whose count is
  below the maximum is never the one picked; every player at the maximum is picked for
  some draw of the random source; and the result stored names the player picked. The
  tally is a dictionary, so its keys are distinct.
\<close>

theorem end_voting_eliminates_a_leader:
  assumes "rs rid = Some rm" and "game_active rm" and "votes rm \<noteq> []"
    and "distinct (map fst (votes rm))"
  shows "\<exists>el. eliminated r (votes rm) = Inr el \<and>
              map_of (votes rm) el = Some (Max (snd ` set (votes rm))) \<and>
              (\<forall>p c. map_of (votes rm) p = Some c \<and> c < Max (snd ` set (votes rm)) \<longrightarrow> el \<noteq> p) \<and>
              (\<forall>p. map_of (votes rm) p = Some (Max (snd ` set (votes rm))) \<longrightarrow>
                   (\<exists>r'. eliminated r' (votes rm) = Inr p)) \<and>
              (\<exists>rm'. end_voting r rs rid = rs(rid \<mapsto> rm') \<and>
                     result rm' \<in> {Some (''Bhadwa '' @ el @ '' was eliminated. Innocents win!''),
                                   Some (el @ '' was eliminated. Bhadwa wins.'')})"
proof -
  let ?m = "Max (snd ` set (votes rm))"
  from eliminated_total [OF assms(3)] obtain el
    where el: "eliminated r (votes rm) = Inr el" and mem: "(el, ?m) \<in> set (votes rm)"
    by blast
  from mem assms(4) have top: "map_of (votes rm) el = Some ?m" by simp
  have below: "\<forall>p c. map_of (votes rm) p = Some c \<and> c < ?m \<longrightarrow> el \<noteq> p"
    using top by auto
  have every: "\<forall>p. map_of (votes rm) p = Some ?m \<longrightarrow> (\<exists>r'. eliminated r' (votes rm) = Inr p)"
    using eliminated_every_max [of _ "votes rm"] by (auto dest: map_of_SomeD)
  have "end_voting r rs rid = rs(rid \<mapsto> close_room r rm)"
    using assms(1,2) by (rule end_voting_open)
  moreover have "result (close_room r rm) \<in>
      {Some (''Bhadwa '' @ el @ '' was eliminated. Innocents win!''),
       Some (el @ '' was eliminated. Bhadwa wins.'')}"
    by (simp add: close_room_result [OF assms(3) el])
  ultimately show ?thesis using el top below every by blast
qed

theorem end_voting_eliminates_a_leader_witness:
  "[''den'' \<mapsto> tied_room] ''den'' = Some tied_room \<and> game_active tied_room \<and>
   votes tied_room \<noteq> [] \<and> distinct (map fst (votes tied_room)) \<and>
   votes tied_room = [(''A'', 3), (''B'', 3), (''C'', 1)] \<and>
   Max (snd ` set (votes tied_room)) = 3 \<and>
   eliminated 0 (votes tied_room) = Inr ''A'' \<and>
   eliminated 1 (votes tied_room) = Inr ''B'' \<and>
   eliminated 2 (votes tied_room) = Inr ''A'' \<and>
   (\<exists>el. eliminated 5 (votes tied_room) = Inr el \<and>
      map_of (votes tied_room) el = Some (Max (snd ` set (votes tied_room))) \<and>
      (\<forall>p c. map_of (votes tied_room) p = Some c \<and> c < Max (snd ` set (votes tied_room))
             \<longrightarrow> el \<noteq> p) \<and>
      (\<forall>p. map_of (votes tied_room) p = Some (Max (snd ` set (votes tied_room))) \<longrightarrow>
           (\<exists>r'. eliminated r' (votes tied_room) = Inr p)) \<and>
      (\<exists>rm'. end_voting 5 [''den'' \<mapsto> tied_room] ''den'' =
               [''den'' \<mapsto> tied_room, ''den'' \<mapsto> rm'] \<and>
             result rm' \<in> {Some (''Bhadwa '' @ el @ '' was eliminated. Innocents win!''),
                           Some (el @ '' was eliminated. Bhadwa wins.'')}))"
proof -
  have stored: "[''den'' \<mapsto> tied_room] ''den'' = Some tied_room" by simp
  have active: "game_active tied_room" by (simp add: tied_room_def)
  have vs: "votes tied_room = [(''A'', 3), (''B'', 3), (''C'', 1)]" by (simp add: tied_room_def)
  have cast: "votes tied_room \<noteq> []" by (simp add: vs)
  have keys: "distinct (map fst (votes tied_room))" by (simp add: vs)
  have top: "Max (snd ` set (votes tied_room)) = 3" by (simp add: vs)
  have e0: "eliminated 0 (votes tied_room) = Inr ''A''" unfolding vs by code_simp
  have e1: "eliminated 1 (votes tied_room) = Inr ''B''" unfolding vs by code_simp
  have e2: "eliminated 2 (votes tied_room) = Inr ''A''" unfolding vs by code_simp
  show ?thesis
    by (intro conjI)
       (rule stored, rule active, rule cast, rule keys, rule vs, rule top, rule e0, rule e1,
        rule e2,
        rule end_voting_eliminates_a_leader
               [of "[''den'' \<mapsto> tied_room]" "''den''" tied_room 5, OF stored active cast keys])
qed

text \<open>
  C3. On an open room \<^verbatim>\<open>end_voting\<close> clears \<^verbatim>\<open>game_active\<close> and stores a
  result: the fixed text for an empty tally; otherwise the text for the player picked,
  the "Innocents win" text when that player is the room's \<^verbatim>\<open>bhadwa\<close> and the
  "Bhadwa wins" text when not. Players, hidden role and tally stay as they were.
\<close>

theorem end_voting_result:
  assumes "rs rid = Some rm" and "game_active rm"
  shows "\<exists>rm'. end_voting r rs rid = rs(rid \<mapsto> rm') \<and> \<not> game_active rm' \<and>
           (votes rm = [] \<longrightarrow> result rm' = Some ''No votes cast. No elimination.'') \<and>
           (votes rm \<noteq> [] \<longrightarrow>
              (\<exists>el. eliminated r (votes rm) = Inr el \<and>
                 (el = bhadwa rm \<longrightarrow>
                    result rm' = Some (''Bhadwa '' @ el @ '' was eliminated. Innocents win!'')) \<and>
                 (el \<noteq> bhadwa rm \<longrightarrow>
                    result rm' = Some (el @ '' was eliminated. Bhadwa wins.'')))) \<and>
           players rm' = players rm \<and> bhadwa rm' = bhadwa rm \<and> votes rm' = votes rm"
proof (cases "votes rm = []")
  case True
  have "end_voting r rs rid = rs(rid \<mapsto> close_room r rm)"
    using assms by (rule end_voting_open)
  then show ?thesis
    using True by (intro exI [of _ "close_room r rm"]) (simp add: close_room_empty)
next
  case False
  from eliminated_total [OF False] obtain el where el: "eliminated r (votes rm) = Inr el"
    by blast
  have "end_voting r rs rid = rs(rid \<mapsto> close_room r rm)"
    using assms by (rule end_voting_open)
  then show ?thesis
    using False el by (intro exI [of _ "close_room r rm"]) (simp add: close_room_result)
qed

theorem end_voting_result_witness:
  "[''den'' \<mapsto> fresh_room] ''den'' = Some fresh_room \<and> game_active fresh_room \<and>
   votes fresh_room = [] \<and>
   end_voting 0 [''den'' \<mapsto> fresh_room] ''den'' =
     [''den'' \<mapsto> fresh_room\<lparr>game_active := False,
                               result := Some ''No votes cast. No elimination.''\<rparr>] \<and>
   [''den'' \<mapsto> tied_room] ''den'' = Some tied_room \<and> game_active tied_room \<and>
   votes tied_room \<noteq> [] \<and> bhadwa tied_room = ''B'' \<and>
   end_voting 0 [''den'' \<mapsto> tied_room] ''den'' =
     [''den'' \<mapsto> tied_room\<lparr>game_active := False,
                              result := Some ''A was eliminated. Bhadwa wins.''\<rparr>] \<and>
   end_voting 3 [''den'' \<mapsto> tied_room] ''den'' =
     [''den'' \<mapsto> tied_room\<lparr>game_active := False,
                              result := Some ''Bhadwa B was eliminated. Innocents win!''\<rparr>] \<and>
   (\<exists>rm'. end_voting 0 [''den'' \<mapsto> fresh_room] ''den'' =
             [''den'' \<mapsto> fresh_room, ''den'' \<mapsto> rm'] \<and> \<not> game_active rm' \<and>
           (votes fresh_room = [] \<longrightarrow> result rm' = Some ''No votes cast. No elimination.'') \<and>
           (votes fresh_room \<noteq> [] \<longrightarrow>
              (\<exists>el. eliminated 0 (votes fresh_room) = Inr el \<and>
                 (el = bhadwa fresh_room \<longrightarrow>
                    result rm' = Some (''Bhadwa '' @ el @ '' was eliminated. Innocents win!'')) \<and>
                 (el \<noteq> bhadwa fresh_room \<longrightarrow>
                    result rm' = Some (el @ '' was eliminated. Bhadwa wins.'')))) \<and>
           players rm' = players fresh_room \<and> bhadwa rm' = bhadwa fresh_room \<and>
           votes rm' = votes fresh_room) \<and>
   (\<exists>rm'. end_voting 3 [''den'' \<mapsto> tied_room] ''den'' =
             [''den'' \<mapsto> tied_room, ''den'' \<mapsto> rm'] \<and> \<not> game_active rm' \<and>
           (votes tied_room = [] \<longrightarrow> result rm' = Some ''No votes cast. No elimination.'') \<and>
           (votes tied_room \<noteq> [] \<longrightarrow>
              (\<exists>el. eliminated 3 (votes tied_room) = Inr el \<and>
                 (el = bhadwa tied_room \<longrightarrow>
                    result rm' = Some (''Bhadwa '' @ el @ '' was eliminated. Innocents win!'')) \<and>
                 (el \<noteq> bhadwa tied_room \<longrightarrow>
                    result rm' = Some (el @ '' was eliminated. Bhadwa wins.'')))) \<and>
           players rm' = players tied_room \<and> bhadwa rm' = bhadwa tied_room \<and>
           votes rm' = votes tied_room)"
proof -
  have fs: "[''den'' \<mapsto> fresh_room] ''den'' = Some fresh_room" by simp
  have fa: "game_active fresh_room" by (simp add: fresh_room_def)
  have fv: "votes fresh_room = []" by (simp add: fresh_room_def)
  have ts: "[''den'' \<mapsto> tied_room] ''den'' = Some tied_room" by simp
  have ta: "game_active tied_room" by (simp add: tied_room_def)
  have tvs: "votes tied_room = [(''A'', 3), (''B'', 3), (''C'', 1)]" by (simp add: tied_room_def)
  have tv: "votes tied_room \<noteq> []" by (simp add: tvs)
  have tb: "bhadwa tied_room = ''B''" by (simp add: tied_room_def)
  have e0: "eliminated 0 (votes tied_room) = Inr ''A''" unfolding tvs by code_simp
  have e1: "eliminated 3 (votes tied_room) = Inr ''B''" unfolding tvs by code_simp
  have f0: "end_voting 0 [''den'' \<mapsto> fresh_room] ''den'' =
     [''den'' \<mapsto> fresh_room\<lparr>game_active := False,
                               result := Some ''No votes cast. No elimination.''\<rparr>]"
    by (simp add: end_voting_def fa close_room_empty [OF fv])
  have t0: "end_voting 0 [''den'' \<mapsto> tied_room] ''den'' =
     [''den'' \<mapsto> tied_room\<lparr>game_active := False,
                              result := Some ''A was eliminated. Bhadwa wins.''\<rparr>]"
    by (simp add: end_voting_def ta close_room_result [OF tv e0] tb)
  have t1: "end_voting 3 [''den'' \<mapsto> tied_room] ''den'' =
     [''den'' \<mapsto> tied_room\<lparr>game_active := False,
                              result := Some ''Bhadwa B was eliminated. Innocents win!''\<rparr>]"
    by (simp add: end_voting_def ta close_room_result [OF tv e1] tb)
  show ?thesis
    by (intro conjI)
       (rule fs, rule fa, rule fv, rule f0, rule ts, rule ta, rule tv, rule tb, rule t0, rule t1,
        rule end_voting_result [of "[''den'' \<mapsto> fresh_room]" "''den''" fresh_room 0, OF fs fa],
        rule end_voting_result [of "[''den'' \<mapsto> tied_room]" "''den''" tied_room 3, OF ts ta])
qed

subsection \<open>Casting votes\<close>

lemma vote_open:
  assumes "rs rid = Some rm" and "game_active rm"
    and "v \<in> fst ` set (players rm)" and "t \<in> fst ` set (players rm)"
  shows "vote rs (Some rid) (Some v) (Some t) =
           (if has_voted rm v then ((Error ''You have already voted today'', 400), rs)
            else ((Message (v @ '' voted for '' @ t), 200), rs(rid \<mapsto> record_vote rm v t)))"
proof -
  from assms(3) obtain st where "map_of (players rm) v = Some st"
    by (cases "map_of (players rm) v") (auto simp: map_of_eq_None_iff)
  with assms show ?thesis
    by (simp add: vote_def rooms_get_def in_dict_def has_voted_def record_vote_def)
qed

lemma vote_succeededE:
  assumes "vote rs room_id voter vote_for = (resp, rs')" and "succeeded resp"
  obtains rid v t rm where
    "room_id = Some rid" "voter = Some v" "vote_for = Some t"
    "rs rid = Some rm" "game_active rm"
    "v \<in> fst ` set (players rm)" "t \<in> fst ` set (players rm)" "\<not> has_voted rm v"
    "resp = (Message (v @ '' voted for '' @ t), 200)"
    "rs' = rs(rid \<mapsto> record_vote rm v t)"
proof -
  from assms obtain rm where rm: "rooms_get rs room_id = Some rm"
    by (auto simp: vote_def split: option.splits)
  then obtain rid where rid: "room_id = Some rid" "rs rid = Some rm"
    by (auto simp: rooms_get_def split: option.splits)
  from assms rm have act: "game_active rm" and inv: "in_dict voter (players rm)"
    and int: "in_dict vote_for (players rm)"
    by (auto simp: vote_def split: if_splits)
  from inv obtain v where v: "voter = Some v" "v \<in> fst ` set (players rm)"
    by (auto simp: in_dict_def split: option.splits)
  from int obtain t where t: "vote_for = Some t" "t \<in> fst ` set (players rm)"
    by (auto simp: in_dict_def split: option.splits)
  from assms have eff: "\<not> has_voted rm v"
    "resp = (Message (v @ '' voted for '' @ t), 200)"
    "rs' = rs(rid \<mapsto> record_vote rm v t)"
    unfolding rid(1) v(1) t(1) vote_open [of rs rid rm v t, OF rid(2) act v(2) t(2)]
    by (auto split: if_splits)
  show thesis
    by (rule that [OF rid(1) v(1) t(1) rid(2) act v(2) t(2) eff])
qed

lemma record_vote_flag:
  "v \<in> fst ` set (players rm) \<Longrightarrow>
   \<exists>st. map_of (players (record_vote rm v t)) v = Some st \<and> voted_today st"
  by (auto simp: record_vote_def map_of_map_entry map_of_eq_None_iff split: option.splits)

lemma record_vote_others:
  "u \<noteq> v \<Longrightarrow> map_of (players (record_vote rm v t)) u = map_of (players rm) u"
  by (simp add: record_vote_def map_of_map_entry)

lemma record_vote_keys: "map fst (players (record_vote rm v t)) = map fst (players rm)"
proof -
  have "map fst (AList.map_entry v f xs) = map fst xs" for f and xs :: "(string \<times> player_state) list"
    by (induction xs) auto
  then show ?thesis by (simp add: record_vote_def)
qed

lemma record_vote_tally:
  "map_of (votes (record_vote rm v t)) = (map_of (votes rm))(t \<mapsto> votes_get (votes rm) t + 1)"
  by (simp add: record_vote_def votes_get_def update_conv')

lemma record_vote_frame:
  "game_active (record_vote rm v t) = game_active rm"
  "bhadwa (record_vote rm v t) = bhadwa rm"
  "result (record_vote rm v t) = result rm"
  by (simp_all add: record_vote_def)

lemma has_voted_record_vote:
  "v \<in> fst ` set (players rm) \<Longrightarrow>
   has_voted (record_vote rm v t) u = (u = v \<or> has_voted rm u)"
  by (auto simp: has_voted_def record_vote_def map_of_map_entry map_of_eq_None_iff
           split: option.splits)

lemma votes_get_record_vote:
  "votes_get (votes (record_vote rm v t)) t = votes_get (votes rm) t + 1"
  "map_of (votes (record_vote rm v t)) t \<noteq> None"
  by (simp_all add: record_vote_tally) (simp add: votes_get_def record_vote_tally)

lemma cast_votes_all:
  assumes "rs rid = Some rm" and "game_active rm" and "distinct voters"
    and "\<forall>v\<in>set voters. v \<in> fst ` set (players rm) \<and> \<not> has_voted rm v"
    and "t \<in> fst ` set (players rm)"
  shows "\<exists>rm'. snd (cast_votes rs rid t voters) rid = Some rm' \<and>
           list_all succeeded (fst (cast_votes rs rid t voters)) \<and>
           length (fst (cast_votes rs rid t voters)) = length voters \<and>
           votes_get (votes rm') t = votes_get (votes rm) t + int (length voters) \<and>
           (voters \<noteq> [] \<longrightarrow> map_of (votes rm') t \<noteq> None) \<and>
           (\<forall>u. has_voted rm' u = (u \<in> set voters \<or> has_voted rm u))"
  using assms
proof (induction voters arbitrary: rs rm)
  case Nil
  then show ?case by simp
next
  case (Cons v vs)
  let ?rm1 = "record_vote rm v t"
  let ?rs1 = "rs(rid \<mapsto> ?rm1)"
  from Cons.prems have v: "v \<in> fst ` set (players rm)" "\<not> has_voted rm v" by auto
  have first: "vote rs (Some rid) (Some v) (Some t) =
                 ((Message (v @ '' voted for '' @ t), 200), ?rs1)"
    using vote_open [of rs rid rm v t] Cons.prems(1,2,5) v by simp
  have keys: "fst ` set (players ?rm1) = fst ` set (players rm)"
    using record_vote_keys [of rm v t] by (metis set_map)
  have p1: "?rs1 rid = Some ?rm1" by simp
  have p2: "game_active ?rm1" using Cons.prems(2) by (simp add: record_vote_frame)
  have p3: "distinct vs" using Cons.prems(3) by simp
  have p4: "\<forall>u\<in>set vs. u \<in> fst ` set (players ?rm1) \<and> \<not> has_voted ?rm1 u"
    using Cons.prems(3,4) v(1) by (auto simp: keys has_voted_record_vote)
  have p5: "t \<in> fst ` set (players ?rm1)" using Cons.prems(5) by (simp add: keys)
  from Cons.IH [of ?rs1 ?rm1, OF p1 p2 p3 p4 p5] obtain rm' where
    r1: "snd (cast_votes ?rs1 rid t vs) rid = Some rm'" and
    r2: "list_all succeeded (fst (cast_votes ?rs1 rid t vs))" and
    r3: "length (fst (cast_votes ?rs1 rid t vs)) = length vs" and
    r4: "votes_get (votes rm') t = votes_get (votes ?rm1) t + int (length vs)" and
    r5: "vs \<noteq> [] \<longrightarrow> map_of (votes rm') t \<noteq> None" and
    r6: "\<forall>u. has_voted rm' u = (u \<in> set vs \<or> has_voted ?rm1 u)"
    by blast
  have unfold: "cast_votes rs rid t (v # vs) =
      ((Message (v @ '' voted for '' @ t), 200) # fst (cast_votes ?rs1 rid t vs),
       snd (cast_votes ?rs1 rid t vs))"
    by (simp add: first split: prod.splits)
  have c4: "votes_get (votes rm') t = votes_get (votes rm) t + int (length (v # vs))"
    using r4 by (simp add: votes_get_record_vote)
  have c5: "map_of (votes rm') t \<noteq> None"
  proof (cases "vs = []")
    case True
    then have "rm' = ?rm1" using r1 by simp
    then show ?thesis by (simp add: votes_get_record_vote)
  next
    case False
    with r5 show ?thesis by simp
  qed
  have c6: "\<forall>u. has_voted rm' u = (u \<in> set (v # vs) \<or> has_voted rm u)"
    using r6 v(1) by (auto simp: has_voted_record_vote)
  show ?case
    unfolding unfold using r1 r2 r3 c4 c5 c6 by (intro exI [of _ rm']) simp
qed

text \<open>
  C4. A successful \<^verbatim>\<open>vote\<close> sets the voter's \<^verbatim>\<open>voted_today\<close> flag and adds one
  to the target's count, creating it at 1 when the target had none, and leaves the other
  counts alone. And when, in an open room with an empty tally, k distinct players who
  have not voted today (k at least 1) each vote for a player T, all k votes succeed and
  the count of T is k.
\<close>

theorem vote_counts:
  "(vote rs room_id voter vote_for = (resp, rs') \<and> succeeded resp \<longrightarrow>
      (\<exists>rid v t rm rm'.
         room_id = Some rid \<and> voter = Some v \<and> vote_for = Some t \<and>
         rs rid = Some rm \<and> rs' = rs(rid \<mapsto> rm') \<and>
         (\<exists>st. map_of (players rm') v = Some st \<and> voted_today st) \<and>
         (map_of (votes rm) t = None \<longrightarrow> map_of (votes rm') t = Some 1) \<and>
         (\<forall>c. map_of (votes rm) t = Some c \<longrightarrow> map_of (votes rm') t = Some (c + 1)) \<and>
         (\<forall>p. p \<noteq> t \<longrightarrow> map_of (votes rm') p = map_of (votes rm) p))) \<and>
   (rs0 rid0 = Some rm0 \<and> game_active rm0 \<and> votes rm0 = [] \<and>
    distinct voters \<and> voters \<noteq> [] \<and>
    (\<forall>v\<in>set voters. \<exists>st. map_of (players rm0) v = Some st \<and> \<not> voted_today st) \<and>
    t0 \<in> fst ` set (players rm0) \<longrightarrow>
      list_all succeeded (fst (cast_votes rs0 rid0 t0 voters)) \<and>
      length (fst (cast_votes rs0 rid0 t0 voters)) = length voters \<and>
      (\<exists>rm'. snd (cast_votes rs0 rid0 t0 voters) rid0 = Some rm' \<and>
             map_of (votes rm') t0 = Some (int (length voters))))"
proof (intro conjI impI)
  assume "vote rs room_id voter vote_for = (resp, rs') \<and> succeeded resp"
  then have run: "vote rs room_id voter vote_for = (resp, rs')" and ok: "succeeded resp"
    by simp_all
  from run ok obtain rid v t rm where
    ids: "room_id = Some rid" "voter = Some v" "vote_for = Some t" and
    rm: "rs rid = Some rm" and v: "v \<in> fst ` set (players rm)" and
    rs': "rs' = rs(rid \<mapsto> record_vote rm v t)"
    by (rule vote_succeededE)
  let ?rm' = "record_vote rm v t"
  have flag: "\<exists>st. map_of (players ?rm') v = Some st \<and> voted_today st"
    using v by (rule record_vote_flag)
  have new: "map_of (votes rm) t = None \<longrightarrow> map_of (votes ?rm') t = Some 1"
    by (simp add: record_vote_tally votes_get_def)
  have inc: "\<forall>c. map_of (votes rm) t = Some c \<longrightarrow> map_of (votes ?rm') t = Some (c + 1)"
    by (simp add: record_vote_tally votes_get_def)
  have rest: "\<forall>p. p \<noteq> t \<longrightarrow> map_of (votes ?rm') p = map_of (votes rm) p"
    by (simp add: record_vote_tally)
  from ids rm rs' flag new inc rest
  show "\<exists>rid v t rm rm'.
         room_id = Some rid \<and> voter = Some v \<and> vote_for = Some t \<and>
         rs rid = Some rm \<and> rs' = rs(rid \<mapsto> rm') \<and>
         (\<exists>st. map_of (players rm') v = Some st \<and> voted_today st) \<and>
         (map_of (votes rm) t = None \<longrightarrow> map_of (votes rm') t = Some 1) \<and>
         (\<forall>c. map_of (votes rm) t = Some c \<longrightarrow> map_of (votes rm') t = Some (c + 1)) \<and>
         (\<forall>p. p \<noteq> t \<longrightarrow> map_of (votes rm') p = map_of (votes rm) p)"
    by (intro exI [of _ rid] exI [of _ v] exI [of _ t] exI [of _ rm] exI [of _ ?rm']) simp
next
  assume h: "rs0 rid0 = Some rm0 \<and> game_active rm0 \<and> votes rm0 = [] \<and>
    distinct voters \<and> voters \<noteq> [] \<and>
    (\<forall>v\<in>set voters. \<exists>st. map_of (players rm0) v = Some st \<and> \<not> voted_today st) \<and>
    t0 \<in> fst ` set (players rm0)"
  then have elig: "\<forall>v\<in>set voters. v \<in> fst ` set (players rm0) \<and> \<not> has_voted rm0 v"
    by (force simp: has_voted_def dest: map_of_SomeD)
  from h have h1: "rs0 rid0 = Some rm0" and h2: "game_active rm0" and h3: "distinct voters"
    and h5: "t0 \<in> fst ` set (players rm0)" and empty: "votes rm0 = []" and ne: "voters \<noteq> []"
    by simp_all
  from cast_votes_all [of rs0 rid0 rm0 voters t0, OF h1 h2 h3 elig h5] obtain rm' where
    r1: "snd (cast_votes rs0 rid0 t0 voters) rid0 = Some rm'" and
    r2: "list_all succeeded (fst (cast_votes rs0 rid0 t0 voters))" and
    r3: "length (fst (cast_votes rs0 rid0 t0 voters)) = length voters" and
    r4: "votes_get (votes rm') t0 = votes_get (votes rm0) t0 + int (length voters)" and
    r5: "voters \<noteq> [] \<longrightarrow> map_of (votes rm') t0 \<noteq> None"
    by blast
  from r5 ne obtain c where c: "map_of (votes rm') t0 = Some c" by auto
  with r4 empty have "c = int (length voters)" by (simp add: votes_get_def)
  with c r1 have r6: "\<exists>rm'. snd (cast_votes rs0 rid0 t0 voters) rid0 = Some rm' \<and>
             map_of (votes rm') t0 = Some (int (length voters))" by simp
  show "list_all succeeded (fst (cast_votes rs0 rid0 t0 voters))" by (rule r2)
  show "length (fst (cast_votes rs0 rid0 t0 voters)) = length voters" by (rule r3)
  show "\<exists>rm'. snd (cast_votes rs0 rid0 t0 voters) rid0 = Some rm' \<and>
             map_of (votes rm') t0 = Some (int (length voters))" by (rule r6)
qed

theorem vote_counts_witness:
  "vote [''den'' \<mapsto> fresh_room] (Some ''den'') (Some ''A'') (Some ''C'') =
     ((Message ''A voted for C'', 200),
      [''den'' \<mapsto> \<lparr>players = [(''A'', \<lparr>is_bhadwa = False, voted_today = True\<rparr>),
                                (''B'', \<lparr>is_bhadwa = True, voted_today = False\<rparr>),
                                (''C'', \<lparr>is_bhadwa = False, voted_today = False\<rparr>)],
                     bhadwa = ''B'', votes = [(''C'', 1)], game_active = True, result = None\<rparr>]) \<and>
   succeeded (fst (vote [''den'' \<mapsto> fresh_room] (Some ''den'') (Some ''A'') (Some ''C''))) \<and>
   (\<exists>rid v t rm rm'.
      Some ''den'' = Some rid \<and> Some ''A'' = Some v \<and> Some ''C'' = Some t \<and>
      [''den'' \<mapsto> fresh_room] rid = Some rm \<and>
      snd (vote [''den'' \<mapsto> fresh_room] (Some ''den'') (Some ''A'') (Some ''C'')) =
        [''den'' \<mapsto> fresh_room, rid \<mapsto> rm'] \<and>
      (\<exists>st. map_of (players rm') v = Some st \<and> voted_today st) \<and>
      (map_of (votes rm) t = None \<longrightarrow> map_of (votes rm') t = Some 1) \<and>
      (\<forall>c. map_of (votes rm) t = Some c \<longrightarrow> map_of (votes rm') t = Some (c + 1)) \<and>
      (\<forall>p. p \<noteq> t \<longrightarrow> map_of (votes rm') p = map_of (votes rm) p)) \<and>
   [''den'' \<mapsto> fresh_room] ''den'' = Some fresh_room \<and> game_active fresh_room \<and>
   votes fresh_room = [] \<and> distinct [''A'', ''B'', ''C''] \<and> [''A'', ''B'', ''C''] \<noteq> [] \<and>
   map (map_of (players fresh_room)) [''A'', ''B'', ''C''] =
     [Some \<lparr>is_bhadwa = False, voted_today = False\<rparr>,
      Some \<lparr>is_bhadwa = True, voted_today = False\<rparr>,
      Some \<lparr>is_bhadwa = False, voted_today = False\<rparr>] \<and>
   ''C'' \<in> fst ` set (players fresh_room) \<and>
   cast_votes [''den'' \<mapsto> fresh_room] ''den'' ''C'' [''A'', ''B'', ''C''] =
     ([(Message ''A voted for C'', 200), (Message ''B voted for C'', 200),
       (Message ''C voted for C'', 200)],
      [''den'' \<mapsto> \<lparr>players = [(''A'', \<lparr>is_bhadwa = False, voted_today = True\<rparr>),
                                (''B'', \<lparr>is_bhadwa = True, voted_today = True\<rparr>),
                                (''C'', \<lparr>is_bhadwa = False, voted_today = True\<rparr>)],
                     bhadwa = ''B'', votes = [(''C'', 3)], game_active = True, result = None\<rparr>]) \<and>
   list_all succeeded (fst (cast_votes [''den'' \<mapsto> fresh_room] ''den'' ''C'' [''A'', ''B'', ''C''])) \<and>
   length (fst (cast_votes [''den'' \<mapsto> fresh_room] ''den'' ''C'' [''A'', ''B'', ''C''])) =
     length [''A'', ''B'', ''C''] \<and>
   (\<exists>rm'. snd (cast_votes [''den'' \<mapsto> fresh_room] ''den'' ''C'' [''A'', ''B'', ''C'']) ''den'' =
            Some rm' \<and>
          map_of (votes rm') ''C'' = Some (int (length [''A'', ''B'', ''C''])))"
proof -
  let ?rs = "[''den'' \<mapsto> fresh_room]"
  let ?one = "vote ?rs (Some ''den'') (Some ''A'') (Some ''C'')"
  have v1: "?one =
     ((Message ''A voted for C'', 200),
      [''den'' \<mapsto> \<lparr>players = [(''A'', \<lparr>is_bhadwa = False, voted_today = True\<rparr>),
                                (''B'', \<lparr>is_bhadwa = True, voted_today = False\<rparr>),
                                (''C'', \<lparr>is_bhadwa = False, voted_today = False\<rparr>)],
                     bhadwa = ''B'', votes = [(''C'', 1)], game_active = True, result = None\<rparr>])"
    by (simp add: vote_def rooms_get_def in_dict_def fresh_room_def)
  have ok: "succeeded (fst ?one)" by (simp add: v1)
  have h1: "?one = (fst ?one, snd ?one) \<and> succeeded (fst ?one)" using ok by simp
  have s: "?rs ''den'' = Some fresh_room" by simp
  have a: "game_active fresh_room" by (simp add: fresh_room_def)
  have e: "votes fresh_room = []" by (simp add: fresh_room_def)
  have d: "distinct [''A'', ''B'', ''C'']" by simp
  have n: "[''A'', ''B'', ''C''] \<noteq> []" by simp
  have el: "\<forall>v\<in>set [''A'', ''B'', ''C''].
      \<exists>st. map_of (players fresh_room) v = Some st \<and> \<not> voted_today st"
    by (simp add: fresh_room_def)
  have unvoted: "map (map_of (players fresh_room)) [''A'', ''B'', ''C''] =
     [Some \<lparr>is_bhadwa = False, voted_today = False\<rparr>,
      Some \<lparr>is_bhadwa = True, voted_today = False\<rparr>,
      Some \<lparr>is_bhadwa = False, voted_today = False\<rparr>]"
    by (simp add: fresh_room_def)
  have t: "''C'' \<in> fst ` set (players fresh_room)" by (simp add: fresh_room_def)
  have h2: "?rs ''den'' = Some fresh_room \<and> game_active fresh_room \<and> votes fresh_room = [] \<and>
    distinct [''A'', ''B'', ''C''] \<and> [''A'', ''B'', ''C''] \<noteq> [] \<and>
    (\<forall>v\<in>set [''A'', ''B'', ''C''].
      \<exists>st. map_of (players fresh_room) v = Some st \<and> \<not> voted_today st) \<and>
    ''C'' \<in> fst ` set (players fresh_room)"
    by (intro conjI) (rule s, rule a, rule e, rule d, rule n, rule el, rule t)
  have all3: "cast_votes ?rs ''den'' ''C'' [''A'', ''B'', ''C''] =
     ([(Message ''A voted for C'', 200), (Message ''B voted for C'', 200),
       (Message ''C voted for C'', 200)],
      [''den'' \<mapsto> \<lparr>players = [(''A'', \<lparr>is_bhadwa = False, voted_today = True\<rparr>),
                                (''B'', \<lparr>is_bhadwa = True, voted_today = True\<rparr>),
                                (''C'', \<lparr>is_bhadwa = False, voted_today = True\<rparr>)],
                     bhadwa = ''B'', votes = [(''C'', 3)], game_active = True, result = None\<rparr>])"
    by (simp add: vote_def rooms_get_def in_dict_def fresh_room_def)
  note both = vote_counts [where rs = ?rs and room_id = "Some ''den''" and voter = "Some ''A''"
      and vote_for = "Some ''C''" and resp = "fst ?one" and rs' = "snd ?one"
      and ?rs0.0 = ?rs and ?rid0.0 = "''den''" and ?rm0.0 = fresh_room
      and voters = "[''A'', ''B'', ''C'']" and ?t0.0 = "''C''"]
  note c1 = mp [OF conjunct1 [OF both] h1]
  note c2 = mp [OF conjunct2 [OF both] h2]
  show ?thesis
    by (intro conjI)
       (rule v1, rule ok, rule c1, rule s, rule a, rule e, rule d, rule n, rule unvoted, rule t,
        rule all3, rule conjunct1 [OF c2], rule conjunct1 [OF conjunct2 [OF c2]],
        rule conjunct2 [OF conjunct2 [OF c2]])
qed

text \<open>
  C9. A player of an open room who has not voted today can vote for themselves: the
  vote succeeds, their own count goes up by one and their flag is set. Nothing in
  \<^verbatim>\<open>vote\<close> compares the voter with the target: the vote of such a player succeeds
  for every target that is a player of the room.
\<close>

theorem vote_for_oneself:
  assumes "rs rid = Some rm" and "game_active rm"
    and "map_of (players rm) p = Some st" and "\<not> voted_today st"
  shows "\<exists>rm'. vote rs (Some rid) (Some p) (Some p) =
                 ((Message (p @ '' voted for '' @ p), 200), rs(rid \<mapsto> rm')) \<and>
               map_of (votes rm') p = Some (votes_get (votes rm) p + 1) \<and>
               (\<exists>st'. map_of (players rm') p = Some st' \<and> voted_today st') \<and>
               (\<forall>t. t \<in> fst ` set (players rm) \<longrightarrow>
                    succeeded (fst (vote rs (Some rid) (Some p) (Some t))))"
proof -
  from assms(3) have p: "p \<in> fst ` set (players rm)" by (force dest: map_of_SomeD)
  from assms(3,4) have fresh: "\<not> has_voted rm p" by (simp add: has_voted_def)
  have any: "vote rs (Some rid) (Some p) (Some t) =
               ((Message (p @ '' voted for '' @ t), 200), rs(rid \<mapsto> record_vote rm p t))"
    if "t \<in> fst ` set (players rm)" for t
    using vote_open [of rs rid rm p t, OF assms(1,2) p that] fresh by simp
  have tally: "map_of (votes (record_vote rm p p)) p = Some (votes_get (votes rm) p + 1)"
    by (simp add: record_vote_tally)
  have flag: "\<exists>st'. map_of (players (record_vote rm p p)) p = Some st' \<and> voted_today st'"
    using p by (rule record_vote_flag)
  have every: "\<forall>t. t \<in> fst ` set (players rm) \<longrightarrow>
                 succeeded (fst (vote rs (Some rid) (Some p) (Some t)))"
    by (simp add: any)
  from any [OF p] tally flag every show ?thesis by (intro exI [of _ "record_vote rm p p"]) simp
qed

theorem vote_for_oneself_witness:
  "[''den'' \<mapsto> fresh_room] ''den'' = Some fresh_room \<and> game_active fresh_room \<and>
   map_of (players fresh_room) ''C'' = Some \<lparr>is_bhadwa = False, voted_today = False\<rparr> \<and>
   \<not> voted_today \<lparr>is_bhadwa = False, voted_today = False\<rparr> \<and>
   vote [''den'' \<mapsto> fresh_room] (Some ''den'') (Some ''C'') (Some ''C'') =
     ((Message ''C voted for C'', 200),
      [''den'' \<mapsto> \<lparr>players = [(''A'', \<lparr>is_bhadwa = False, voted_today = False\<rparr>),
                                (''B'', \<lparr>is_bhadwa = True, voted_today = False\<rparr>),
                                (''C'', \<lparr>is_bhadwa = False, voted_today = True\<rparr>)],
                     bhadwa = ''B'', votes = [(''C'', 1)], game_active = True, result = None\<rparr>]) \<and>
   (\<exists>rm'. vote [''den'' \<mapsto> fresh_room] (Some ''den'') (Some ''C'') (Some ''C'') =
            ((Message (''C'' @ '' voted for '' @ ''C''), 200),
             [''den'' \<mapsto> fresh_room, ''den'' \<mapsto> rm']) \<and>
          map_of (votes rm') ''C'' = Some (votes_get (votes fresh_room) ''C'' + 1) \<and>
          (\<exists>st'. map_of (players rm') ''C'' = Some st' \<and> voted_today st') \<and>
          (\<forall>t. t \<in> fst ` set (players fresh_room) \<longrightarrow>
               succeeded (fst (vote [''den'' \<mapsto> fresh_room] (Some ''den'') (Some ''C'') (Some t)))))"
proof -
  have s: "[''den'' \<mapsto> fresh_room] ''den'' = Some fresh_room" by simp
  have a: "game_active fresh_room" by (simp add: fresh_room_def)
  have c: "map_of (players fresh_room) ''C'' = Some \<lparr>is_bhadwa = False, voted_today = False\<rparr>"
    by (simp add: fresh_room_def)
  have f: "\<not> voted_today \<lparr>is_bhadwa = False, voted_today = False\<rparr>" by simp
  have v: "vote [''den'' \<mapsto> fresh_room] (Some ''den'') (Some ''C'') (Some ''C'') =
     ((Message ''C voted for C'', 200),
      [''den'' \<mapsto> \<lparr>players = [(''A'', \<lparr>is_bhadwa = False, voted_today = False\<rparr>),
                                (''B'', \<lparr>is_bhadwa = True, voted_today = False\<rparr>),
                                (''C'', \<lparr>is_bhadwa = False, voted_today = True\<rparr>)],
                     bhadwa = ''B'', votes = [(''C'', 1)], game_active = True, result = None\<rparr>])"
    by (simp add: vote_def rooms_get_def in_dict_def fresh_room_def)
  show ?thesis
    by (intro conjI)
       (rule s, rule a, rule c, rule f, rule v,
        rule vote_for_oneself [of "[''den'' \<mapsto> fresh_room]" "''den''" fresh_room "''C''"
                                  "\<lparr>is_bhadwa = False, voted_today = False\<rparr>", OF s a c f])
qed

subsection \<open>Resetting the day\<close>

lemma reset_votes_succeededE:
  assumes "reset_votes rs room_id = (resp, rs')" and "succeeded resp"
  obtains rid rm where
    "room_id = Some rid" "rs rid = Some rm" "game_active rm"
    "resp = (Message ''Votes reset, new day started'', 200)"
    "rs' = rs(rid \<mapsto> rm\<lparr>players :=
             map (\<lambda>(name, st). (name, st\<lparr>voted_today := False\<rparr>)) (players rm)\<rparr>)"
proof -
  from assms obtain rm where rm: "rooms_get rs room_id = Some rm"
    by (auto simp: reset_votes_def split: option.splits)
  then obtain rid where rid: "room_id = Some rid" "rs rid = Some rm"
    by (auto simp: rooms_get_def split: option.splits)
  from assms rm have act: "game_active rm"
    by (auto simp: reset_votes_def split: if_splits)
  from assms rm rid act have eff: "resp = (Message ''Votes reset, new day started'', 200)"
    "rs' = rs(rid \<mapsto> rm\<lparr>players :=
             map (\<lambda>(name, st). (name, st\<lparr>voted_today := False\<rparr>)) (players rm)\<rparr>)"
    by (auto simp: reset_votes_def)
  show thesis by (rule that [OF rid act eff])
qed

text \<open>
  C6. A successful \<^verbatim>\<open>reset_votes\<close> clears \<^verbatim>\<open>voted_today\<close> for every player of
  the room and changes nothing else: the names and their order, the \<^verbatim>\<open>is_bhadwa\<close>
  flags, the tally, the hidden role, \<^verbatim>\<open>game_active\<close>, the result and every other
  room of the registry stay as they were.
\<close>

theorem reset_votes_frame:
  assumes "reset_votes rs room_id = (resp, rs')" and "succeeded resp"
  shows "\<exists>rid rm rm'.
           room_id = Some rid \<and> rs rid = Some rm \<and> game_active rm \<and> rs' = rs(rid \<mapsto> rm') \<and>
           resp = (Message ''Votes reset, new day started'', 200) \<and>
           (\<forall>n st. (n, st) \<in> set (players rm') \<longrightarrow> \<not> voted_today st) \<and>
           map fst (players rm') = map fst (players rm) \<and>
           map (\<lambda>(n, st). is_bhadwa st) (players rm') = map (\<lambda>(n, st). is_bhadwa st) (players rm) \<and>
           votes rm' = votes rm \<and> bhadwa rm' = bhadwa rm \<and>
           game_active rm' = game_active rm \<and> result rm' = result rm"
proof -
  from assms obtain rid rm where
    rid: "room_id = Some rid" "rs rid = Some rm" "game_active rm" and
    resp: "resp = (Message ''Votes reset, new day started'', 200)" and
    rs': "rs' = rs(rid \<mapsto> rm\<lparr>players :=
             map (\<lambda>(name, st). (name, st\<lparr>voted_today := False\<rparr>)) (players rm)\<rparr>)"
    by (rule reset_votes_succeededE)
  let ?rm' = "rm\<lparr>players := map (\<lambda>(name, st). (name, st\<lparr>voted_today := False\<rparr>)) (players rm)\<rparr>"
  have cleared: "\<forall>n st. (n, st) \<in> set (players ?rm') \<longrightarrow> \<not> voted_today st" by auto
  have keys: "map fst (players ?rm') = map fst (players rm)" by (simp add: comp_def case_prod_beta)
  have roles: "map (\<lambda>(n, st). is_bhadwa st) (players ?rm') = map (\<lambda>(n, st). is_bhadwa st) (players rm)"
    by (simp add: comp_def case_prod_beta)
  from rid resp rs' cleared keys roles show ?thesis
    by (intro exI [of _ rid] exI [of _ rm] exI [of _ ?rm']) simp
qed

theorem reset_votes_frame_witness:
  "reset_votes [''den'' \<mapsto> tied_room] (Some ''den'') =
     ((Message ''Votes reset, new day started'', 200),
      [''den'' \<mapsto> \<lparr>players = [(''A'', \<lparr>is_bhadwa = False, voted_today = False\<rparr>),
                                (''B'', \<lparr>is_bhadwa = True, voted_today = False\<rparr>),
                                (''C'', \<lparr>is_bhadwa = False, voted_today = False\<rparr>)],
                     bhadwa = ''B'', votes = [(''A'', 3), (''B'', 3), (''C'', 1)],
                     game_active = True, result = None\<rparr>]) \<and>
   succeeded (fst (reset_votes [''den'' \<mapsto> tied_room] (Some ''den''))) \<and>
   (\<exists>rid rm rm'.
      Some ''den'' = Some rid \<and> [''den'' \<mapsto> tied_room] rid = Some rm \<and> game_active rm \<and>
      snd (reset_votes [''den'' \<mapsto> tied_room] (Some ''den'')) =
        [''den'' \<mapsto> tied_room, rid \<mapsto> rm'] \<and>
      fst (reset_votes [''den'' \<mapsto> tied_room] (Some ''den'')) =
        (Message ''Votes reset, new day started'', 200) \<and>
      (\<forall>n st. (n, st) \<in> set (players rm') \<longrightarrow> \<not> voted_today st) \<and>
      map fst (players rm') = map fst (players rm) \<and>
      map (\<lambda>(n, st). is_bhadwa st) (players rm') = map (\<lambda>(n, st). is_bhadwa st) (players rm) \<and>
      votes rm' = votes rm \<and> bhadwa rm' = bhadwa rm \<and>
      game_active rm' = game_active rm \<and> result rm' = result rm)"
proof -
  let ?out = "reset_votes [''den'' \<mapsto> tied_room] (Some ''den'')"
  have r: "?out =
     ((Message ''Votes reset, new day started'', 200),
      [''den'' \<mapsto> \<lparr>players = [(''A'', \<lparr>is_bhadwa = False, voted_today = False\<rparr>),
                                (''B'', \<lparr>is_bhadwa = True, voted_today = False\<rparr>),
                                (''C'', \<lparr>is_bhadwa = False, voted_today = False\<rparr>)],
                     bhadwa = ''B'', votes = [(''A'', 3), (''B'', 3), (''C'', 1)],
                     game_active = True, result = None\<rparr>])"
    by (simp add: reset_votes_def rooms_get_def tied_room_def)
  have pair: "?out = (fst ?out, snd ?out)" by simp
  have ok: "succeeded (fst ?out)" by (simp add: r)
  show ?thesis
    by (intro conjI) (rule r, rule ok, rule reset_votes_frame [OF pair ok])
qed

subsection \<open>A closed room\<close>

text \<open>
  C7. On a room whose \<^verbatim>\<open>game_active\<close> is false, \<^verbatim>\<open>vote\<close> (whoever votes, for
  whomever) and \<^verbatim>\<open>reset_votes\<close> both answer with the closed-voting error carrying
  the stored result, and both leave the registry as it was.
\<close>

theorem closed_room_rejects:
  assumes "rs rid = Some rm" and "\<not> game_active rm"
  shows "vote rs (Some rid) voter vote_for =
           ((ErrorResult ''Voting period has ended'' (result rm), 200), rs) \<and>
         reset_votes rs (Some rid) = ((ErrorResult ''Game has ended'' (result rm), 200), rs)"
  using assms by (simp add: vote_def reset_votes_def rooms_get_def)

theorem closed_room_rejects_witness:
  "[''den'' \<mapsto> closed_room] ''den'' = Some closed_room \<and> \<not> game_active closed_room \<and>
   result closed_room = Some ''A was eliminated. Bhadwa wins.'' \<and>
   vote [''den'' \<mapsto> closed_room] (Some ''den'') (Some ''B'') (Some ''A'') =
     ((ErrorResult ''Voting period has ended'' (result closed_room), 200),
      [''den'' \<mapsto> closed_room]) \<and>
   reset_votes [''den'' \<mapsto> closed_room] (Some ''den'') =
     ((ErrorResult ''Game has ended'' (result closed_room), 200), [''den'' \<mapsto> closed_room])"
proof -
  have s: "[''den'' \<mapsto> closed_room] ''den'' = Some closed_room" by simp
  have c: "\<not> game_active closed_room" by (simp add: closed_room_def)
  have res: "result closed_room = Some ''A was eliminated. Bhadwa wins.''"
    by (simp add: closed_room_def)
  note both = closed_room_rejects [of "[''den'' \<mapsto> closed_room]" "''den''" closed_room
                                     "Some ''B''" "Some ''A''", OF s c]
  show ?thesis
    by (intro conjI) (rule s, rule c, rule res, rule conjunct1 [OF both], rule conjunct2 [OF both])
qed

subsection \<open>What room creation accepts\<close>

lemma create_room_valid:
  assumes "rid \<noteq> []" and "2 \<le> length names" and "length names \<le> 20" and "distinct names"
  shows "create_room r rs (Some rid) (Some names) =
           ((Created (''Room '' @ rid @ '' created with players.'') (names ! (r mod length names)), 200),
            rs(rid \<mapsto> \<lparr>players = map (\<lambda>n. (n, \<lparr>is_bhadwa = (n = names ! (r mod length names)),
                                                  voted_today = False\<rparr>)) names,
                          bhadwa = names ! (r mod length names), votes = [],
                          game_active = True, result = None\<rparr>))"
proof -
  from assms(2) have ne: "names \<noteq> []" by auto
  from assms(4) have card: "card (set names) = length names" by (rule distinct_card)
  show ?thesis
    using assms ne card by (simp add: create_room_def choice_def new_players_distinct)
qed

text \<open>
  C8. \<^verbatim>\<open>create_room\<close> checks in this order. A missing or empty list of names is
  answered with the "required" error (whatever the room id). A list of fewer than 2 or
  more than 20 names never succeeds and leaves the registry alone (whatever the room
  id); with a room id given and a non-empty list the answer is the "between 2 and 20"
  error. With a room id given and a count in range, a list with two equal names is
  answered with the "unique" error, and a list of distinct names succeeds and stores an
  open room with these players: so it does for 2 and for 20 distinct names.
\<close>

theorem create_room_validation:
  "(player_names = None \<or> player_names = Some [] \<longrightarrow>
      create_room r rs room_id player_names =
        ((Error ''room_id and player_names required'', 400), rs)) \<and>
   (length names < 2 \<or> 20 < length names \<longrightarrow>
      \<not> succeeded (fst (create_room r rs room_id (Some names))) \<and>
      snd (create_room r rs room_id (Some names)) = rs) \<and>
   (rid \<noteq> [] \<and> names \<noteq> [] \<and> (length names < 2 \<or> 20 < length names) \<longrightarrow>
      create_room r rs (Some rid) (Some names) =
        ((Error ''Number of players must be between 2 and 20'', 400), rs)) \<and>
   (rid \<noteq> [] \<and> 2 \<le> length names \<and> length names \<le> 20 \<and> \<not> distinct names \<longrightarrow>
      create_room r rs (Some rid) (Some names) = ((Error ''Player names must be unique'', 400), rs)) \<and>
   (rid \<noteq> [] \<and> 2 \<le> length names \<and> length names \<le> 20 \<and> distinct names \<longrightarrow>
      succeeded (fst (create_room r rs (Some rid) (Some names))) \<and>
      (\<exists>rm. snd (create_room r rs (Some rid) (Some names)) rid = Some rm \<and>
            map fst (players rm) = names \<and> game_active rm \<and> votes rm = [] \<and> result rm = None))"
proof (intro conjI impI)
  assume "player_names = None \<or> player_names = Some []"
  then show "create_room r rs room_id player_names =
               ((Error ''room_id and player_names required'', 400), rs)"
    by (auto simp: create_room_def split: option.splits)
next
  assume out: "length names < 2 \<or> 20 < length names"
  then have "create_room r rs room_id (Some names) =
               ((Error ''room_id and player_names required'', 400), rs) \<or>
             create_room r rs room_id (Some names) =
               ((Error ''Number of players must be between 2 and 20'', 400), rs)"
    by (auto simp: create_room_def split: option.splits)
  then show "\<not> succeeded (fst (create_room r rs room_id (Some names)))"
    and "snd (create_room r rs room_id (Some names)) = rs"
    by auto
next
  assume "rid \<noteq> [] \<and> names \<noteq> [] \<and> (length names < 2 \<or> 20 < length names)"
  then show "create_room r rs (Some rid) (Some names) =
               ((Error ''Number of players must be between 2 and 20'', 400), rs)"
    by (auto simp: create_room_def)
next
  assume h: "rid \<noteq> [] \<and> 2 \<le> length names \<and> length names \<le> 20 \<and> \<not> distinct names"
  then have "names \<noteq> []" and "card (set names) \<noteq> length names"
    by (auto simp: card_set_length)
  with h show "create_room r rs (Some rid) (Some names) =
                 ((Error ''Player names must be unique'', 400), rs)"
    by (simp add: create_room_def)
next
  assume h: "rid \<noteq> [] \<and> 2 \<le> length names \<and> length names \<le> 20 \<and> distinct names"
  then have v: "rid \<noteq> []" "2 \<le> length names" "length names \<le> 20" "distinct names"
    by simp_all
  show "succeeded (fst (create_room r rs (Some rid) (Some names)))"
    by (simp add: create_room_valid [OF v])
  show "\<exists>rm. snd (create_room r rs (Some rid) (Some names)) rid = Some rm \<and>
            map fst (players rm) = names \<and> game_active rm \<and> votes rm = [] \<and> result rm = None"
    by (simp add: create_room_valid [OF v] comp_def)
qed

theorem create_room_validation_witness:
  "create_room 0 Map.empty (Some ''den'') None =
     ((Error ''room_id and player_names required'', 400), Map.empty) \<and>
   create_room 0 Map.empty (Some ''den'') (Some []) =
     ((Error ''room_id and player_names required'', 400), Map.empty) \<and>
   length [''a''] = 1 \<and>
   create_room 0 Map.empty (Some ''den'') (Some [''a'']) =
     ((Error ''Number of players must be between 2 and 20'', 400), Map.empty) \<and>
   length (twenty_names @ [''u'']) = 21 \<and>
   create_room 0 Map.empty (Some ''den'') (Some (twenty_names @ [''u''])) =
     ((Error ''Number of players must be between 2 and 20'', 400), Map.empty) \<and>
   \<not> succeeded (fst (create_room 0 Map.empty None (Some (twenty_names @ [''u''])))) \<and>
   create_room 0 Map.empty (Some ''den'') (Some [''a'', ''a'']) =
     ((Error ''Player names must be unique'', 400), Map.empty) \<and>
   length [''a'', ''b''] = 2 \<and> distinct [''a'', ''b''] \<and>
   succeeded (fst (create_room 0 Map.empty (Some ''den'') (Some [''a'', ''b'']))) \<and>
   length twenty_names = 20 \<and> distinct twenty_names \<and>
   succeeded (fst (create_room 0 Map.empty (Some ''den'') (Some twenty_names)))"
proof -
  have rid: "''den'' \<noteq> []" by simp
  have l20: "length twenty_names = 20" by (simp add: twenty_names_def)
  have d20: "distinct twenty_names" by (simp add: twenty_names_def)
  have l21: "length (twenty_names @ [''u'']) = 21" by (simp add: l20)
  have l1: "length [''a''] = 1" by simp
  have l2: "length [''a'', ''b''] = 2" by simp
  have d2: "distinct [''a'', ''b'']" by simp
  note none = create_room_validation
    [where player_names = None and r = 0 and rs = Map.empty and room_id = "Some ''den''",
     THEN conjunct1]
  note nil = create_room_validation
    [where player_names = "Some []" and r = 0 and rs = Map.empty and room_id = "Some ''den''",
     THEN conjunct1]
  note one = create_room_validation
    [where names = "[''a'']" and r = 0 and rs = Map.empty and rid = "''den''",
     THEN conjunct2, THEN conjunct2, THEN conjunct1]
  note many = create_room_validation
    [where names = "twenty_names @ [''u'']" and r = 0 and rs = Map.empty and rid = "''den''",
     THEN conjunct2, THEN conjunct2, THEN conjunct1]
  note many' = create_room_validation
    [where names = "twenty_names @ [''u'']" and r = 0 and rs = Map.empty and room_id = None,
     THEN conjunct2, THEN conjunct1]
  note dup = create_room_validation
    [where names = "[''a'', ''a'']" and r = 0 and rs = Map.empty and rid = "''den''",
     THEN conjunct2, THEN conjunct2, THEN conjunct2, THEN conjunct1]
  note two = create_room_validation
    [where names = "[''a'', ''b'']" and r = 0 and rs = Map.empty and rid = "''den''",
     THEN conjunct2, THEN conjunct2, THEN conjunct2, THEN conjunct2]
  note twenty = create_room_validation
    [where names = twenty_names and r = 0 and rs = Map.empty and rid = "''den''",
     THEN conjunct2, THEN conjunct2, THEN conjunct2, THEN conjunct2]
  have c1: "create_room 0 Map.empty (Some ''den'') None =
     ((Error ''room_id and player_names required'', 400), Map.empty)"
    using none by simp
  have c2: "create_room 0 Map.empty (Some ''den'') (Some []) =
     ((Error ''room_id and player_names required'', 400), Map.empty)"
    using nil by simp
  have c3: "create_room 0 Map.empty (Some ''den'') (Some [''a'']) =
     ((Error ''Number of players must be between 2 and 20'', 400), Map.empty)"
    using one by simp
  have c4: "create_room 0 Map.empty (Some ''den'') (Some (twenty_names @ [''u''])) =
     ((Error ''Number of players must be between 2 and 20'', 400), Map.empty)"
    using many rid l21 by simp
  have c5: "\<not> succeeded (fst (create_room 0 Map.empty None (Some (twenty_names @ [''u'']))))"
    using many' l21 by simp
  have c6: "create_room 0 Map.empty (Some ''den'') (Some [''a'', ''a'']) =
     ((Error ''Player names must be unique'', 400), Map.empty)"
    using dup by simp
  have c7: "succeeded (fst (create_room 0 Map.empty (Some ''den'') (Some [''a'', ''b''])))"
    using two by simp
  have c8: "succeeded (fst (create_room 0 Map.empty (Some ''den'') (Some twenty_names)))"
    using twenty rid l20 d20 by simp
  show ?thesis
    by (intro conjI)
       (rule c1, rule c2, rule l1, rule c3, rule l21, rule c4, rule c5, rule c6, rule l2, rule d2,
        rule c7, rule l20, rule d20, rule c8)
qed

subsection \<open>What one event changes, and the tally along a run\<close>

lemma vote_effect:
  "snd (vote rs room_id voter vote_for) = rs \<or>
   (\<exists>rid v t rm. room_id = Some rid \<and> rs rid = Some rm \<and> game_active rm \<and>
      v \<in> fst ` set (players rm) \<and> t \<in> fst ` set (players rm) \<and>
      snd (vote rs room_id voter vote_for) = rs(rid \<mapsto> record_vote rm v t))"
proof (cases "succeeded (fst (vote rs room_id voter vote_for))")
  case True
  have "vote rs room_id voter vote_for =
          (fst (vote rs room_id voter vote_for), snd (vote rs room_id voter vote_for))"
    by simp
  from this True show ?thesis by (rule vote_succeededE) auto
next
  case False
  then have "snd (vote rs room_id voter vote_for) = rs"
    by (auto simp: vote_def split: option.splits if_splits)
  then show ?thesis ..
qed

lemma create_room_effect:
  "snd (create_room r rs room_id player_names) = rs \<or>
   (\<exists>rid rm. room_id = Some rid \<and> votes rm = [] \<and>
      snd (create_room r rs room_id player_names) = rs(rid \<mapsto> rm))"
proof (cases "succeeded (fst (create_room r rs room_id player_names))")
  case True
  have pair: "create_room r rs room_id player_names =
          (fst (create_room r rs room_id player_names),
           snd (create_room r rs room_id player_names))"
    by simp
  from pair True obtain rid names b rm where
    "room_id = Some rid" and
    eff: "snd (create_room r rs room_id player_names) = rs(rid \<mapsto> rm)" and
    rm: "rm = \<lparr>players = map (\<lambda>n. (n, \<lparr>is_bhadwa = (n = b), voted_today = False\<rparr>)) names,
               bhadwa = b, votes = [], game_active = True, result = None\<rparr>"
    by (rule create_room_succeededE)
  moreover from rm have "votes rm = []" by simp
  ultimately have "\<exists>rid rm. room_id = Some rid \<and> votes rm = [] \<and>
      snd (create_room r rs room_id player_names) = rs(rid \<mapsto> rm)"
    by (intro exI [of _ rid] exI [of _ rm]) simp
  then show ?thesis ..
next
  case False
  then have "snd (create_room r rs room_id player_names) = rs"
    by (auto simp: create_room_def split: option.splits if_splits sum.splits)
  then show ?thesis ..
qed

lemma reset_votes_effect:
  "snd (reset_votes rs room_id) = rs \<or>
   (\<exists>rid rm. room_id = Some rid \<and> rs rid = Some rm \<and>
      snd (reset_votes rs room_id) =
        rs(rid \<mapsto> rm\<lparr>players :=
             map (\<lambda>(name, st). (name, st\<lparr>voted_today := False\<rparr>)) (players rm)\<rparr>))"
  by (auto simp: reset_votes_def rooms_get_def split: option.splits)

lemma close_room_frame:
  "players (close_room r rm) = players rm"
  "votes (close_room r rm) = votes rm"
  "bhadwa (close_room r rm) = bhadwa rm"
  by (simp_all add: close_room_def Let_def split: sum.splits)

lemma end_voting_effect:
  "end_voting r rs rid = rs \<or>
   (\<exists>rm. rs rid = Some rm \<and> end_voting r rs rid = rs(rid \<mapsto> close_room r rm))"
  by (auto simp: end_voting_def split: option.splits)

lemma record_vote_votes_keys:
  "fst ` set (votes (record_vote rm v t)) = insert t (fst ` set (votes rm))"
  by (simp add: record_vote_def dom_update)

lemma step_keeps_votes_within:
  assumes "\<forall>rid rm. rs rid = Some rm \<longrightarrow> fst ` set (votes rm) \<subseteq> fst ` set (players rm)"
  shows "\<forall>rid rm. step rs e rid = Some rm \<longrightarrow> fst ` set (votes rm) \<subseteq> fst ` set (players rm)"
proof (cases e)
  case (CreateRoom r room_id player_names)
  from create_room_effect [of r rs room_id player_names] assms show ?thesis
    unfolding CreateRoom step.simps by (elim disjE exE conjE) (simp, simp)
next
  case (CastVote room_id voter vote_for)
  from vote_effect [of rs room_id voter vote_for] show ?thesis
    unfolding CastVote step.simps
  proof (elim disjE exE conjE)
    assume "snd (vote rs room_id voter vote_for) = rs"
    with assms show "\<forall>rid rm. snd (vote rs room_id voter vote_for) rid = Some rm \<longrightarrow>
                       fst ` set (votes rm) \<subseteq> fst ` set (players rm)" by simp
  next
    fix rid v t rm
    assume rm: "rs rid = Some rm" and t: "t \<in> fst ` set (players rm)"
      and eff: "snd (vote rs room_id voter vote_for) = rs(rid \<mapsto> record_vote rm v t)"
    have keys: "fst ` set (players (record_vote rm v t)) = fst ` set (players rm)"
      using record_vote_keys [of rm v t] by (metis set_map)
    from assms rm have "fst ` set (votes rm) \<subseteq> fst ` set (players rm)" by simp
    with t have "fst ` set (votes (record_vote rm v t)) \<subseteq> fst ` set (players (record_vote rm v t))"
      by (simp add: record_vote_votes_keys keys)
    with assms show "\<forall>rid rm. snd (vote rs room_id voter vote_for) rid = Some rm \<longrightarrow>
                       fst ` set (votes rm) \<subseteq> fst ` set (players rm)"
      unfolding eff by simp
  qed
next
  case (ResetDay room_id)
  from reset_votes_effect [of rs room_id] show ?thesis
    unfolding ResetDay step.simps
  proof (elim disjE exE conjE)
    assume "snd (reset_votes rs room_id) = rs"
    with assms show "\<forall>rid rm. snd (reset_votes rs room_id) rid = Some rm \<longrightarrow>
                       fst ` set (votes rm) \<subseteq> fst ` set (players rm)" by simp
  next
    fix rid and rm :: room
    let ?rm' = "rm\<lparr>players := map (\<lambda>(name, st). (name, st\<lparr>voted_today := False\<rparr>)) (players rm)\<rparr>"
    assume rm: "rs rid = Some rm" and eff: "snd (reset_votes rs room_id) = rs(rid \<mapsto> ?rm')"
    have "map fst (players ?rm') = map fst (players rm)" by (simp add: comp_def case_prod_beta)
    then have keys: "fst ` set (players ?rm') = fst ` set (players rm)" by (metis set_map)
    from assms rm have "fst ` set (votes rm) \<subseteq> fst ` set (players rm)" by simp
    then have "fst ` set (votes ?rm') \<subseteq> fst ` set (players ?rm')" unfolding keys by simp
    with assms show "\<forall>rid rm. snd (reset_votes rs room_id) rid = Some rm \<longrightarrow>
                       fst ` set (votes rm) \<subseteq> fst ` set (players rm)"
      unfolding eff by simp
  qed
next
  case (TimerFires r room_id)
  from end_voting_effect [of r rs room_id] assms show ?thesis
    unfolding TimerFires step.simps
    by (elim disjE exE conjE) (simp, simp add: close_room_frame)
qed

lemma run_keeps_votes_within:
  assumes "\<forall>rid rm. rs rid = Some rm \<longrightarrow> fst ` set (votes rm) \<subseteq> fst ` set (players rm)"
  shows "\<forall>rid rm. run rs es rid = Some rm \<longrightarrow> fst ` set (votes rm) \<subseteq> fst ` set (players rm)"
  using assms unfolding run_def
proof (induction es arbitrary: rs)
  case Nil
  then show ?case by simp
next
  case (Cons e es)
  from Cons.prems have "\<forall>rid rm. step rs e rid = Some rm \<longrightarrow>
                          fst ` set (votes rm) \<subseteq> fst ` set (players rm)"
    by (rule step_keeps_votes_within)
  from Cons.IH [OF this] show ?case by simp
qed

text \<open>
  C10. In every registry reached from the empty one by any sequence of requests and
  timer wake-ups, each room's tally has keys among the room's players only:
  \<^verbatim>\<open>create_room\<close> starts with an empty tally, \<^verbatim>\<open>vote\<close> adds a key only after
  finding it among the players, and \<^verbatim>\<open>reset_votes\<close> and \<^verbatim>\<open>end_voting\<close> change
  neither the keys of the tally nor the names of the players.
\<close>

theorem votes_keys_are_players:
  assumes "run Map.empty es rid = Some rm"
  shows "fst ` set (votes rm) \<subseteq> fst ` set (players rm)"
proof -
  have "\<forall>rid rm. Map.empty rid = Some rm \<longrightarrow> fst ` set (votes rm) \<subseteq> fst ` set (players rm)"
    by simp
  from run_keeps_votes_within [OF this, of es] assms show ?thesis by blast
qed

theorem votes_keys_are_players_witness:
  "run Map.empty
     [CreateRoom 7 (Some ''den'') (Some [''A'', ''B'', ''C'']),
      CastVote (Some ''den'') (Some ''A'') (Some ''C''),
      ResetDay (Some ''den''),
      CastVote (Some ''den'') (Some ''A'') (Some ''C''),
      TimerFires 0 ''den''] ''den'' =
     Some \<lparr>players = [(''A'', \<lparr>is_bhadwa = False, voted_today = True\<rparr>),
                      (''B'', \<lparr>is_bhadwa = True, voted_today = False\<rparr>),
                      (''C'', \<lparr>is_bhadwa = False, voted_today = False\<rparr>)],
           bhadwa = ''B'', votes = [(''C'', 2)], game_active = False,
           result = Some ''C was eliminated. Bhadwa wins.''\<rparr> \<and>
   fst ` set (votes \<lparr>players = [(''A'', \<lparr>is_bhadwa = False, voted_today = True\<rparr>),
                      (''B'', \<lparr>is_bhadwa = True, voted_today = False\<rparr>),
                      (''C'', \<lparr>is_bhadwa = False, voted_today = False\<rparr>)],
           bhadwa = ''B'', votes = [(''C'', 2)], game_active = False,
           result = Some ''C was eliminated. Bhadwa wins.''\<rparr>) \<subseteq>
   fst ` set (players \<lparr>players = [(''A'', \<lparr>is_bhadwa = False, voted_today = True\<rparr>),
                      (''B'', \<lparr>is_bhadwa = True, voted_today = False\<rparr>),
                      (''C'', \<lparr>is_bhadwa = False, voted_today = False\<rparr>)],
           bhadwa = ''B'', votes = [(''C'', 2)], game_active = False,
           result = Some ''C was eliminated. Bhadwa wins.''\<rparr>)"
proof -
  have ran: "run Map.empty
     [CreateRoom 7 (Some ''den'') (Some [''A'', ''B'', ''C'']),
      CastVote (Some ''den'') (Some ''A'') (Some ''C''),
      ResetDay (Some ''den''),
      CastVote (Some ''den'') (Some ''A'') (Some ''C''),
      TimerFires 0 ''den''] ''den'' =
     Some \<lparr>players = [(''A'', \<lparr>is_bhadwa = False, voted_today = True\<rparr>),
                      (''B'', \<lparr>is_bhadwa = True, voted_today = False\<rparr>),
                      (''C'', \<lparr>is_bhadwa = False, voted_today = False\<rparr>)],
           bhadwa = ''B'', votes = [(''C'', 2)], game_active = False,
           result = Some ''C was eliminated. Bhadwa wins.''\<rparr>"
    by (simp add: run_def create_room_def choice_def new_players_def card_set_length
                  vote_def rooms_get_def in_dict_def reset_votes_def end_voting_def
                  close_room_def eliminated_def candidates_def)
  show ?thesis
    by (intro conjI) (rule ran, rule votes_keys_are_players [OF ran])
qed

subsection \<open>One vote per day\<close>

lemma step_keeps_voted:
  assumes "rs rid = Some rm" and "game_active rm" and "has_voted rm v" and "keeps_day rid e"
  shows "\<exists>rm'. step rs e rid = Some rm' \<and> game_active rm' \<and> has_voted rm' v \<and>
               fst ` set (players rm') = fst ` set (players rm)"
proof (cases e)
  case (CreateRoom r room_id player_names)
  with assms(4) have other: "room_id \<noteq> Some rid" by simp
  from create_room_effect [of r rs room_id player_names] other
  have "snd (create_room r rs room_id player_names) rid = rs rid" by (auto split: if_splits)
  with assms(1-3) show ?thesis unfolding CreateRoom step.simps by simp
next
  case (CastVote room_id voter vote_for)
  from vote_effect [of rs room_id voter vote_for] show ?thesis
    unfolding CastVote step.simps
  proof (elim disjE exE conjE)
    assume "snd (vote rs room_id voter vote_for) = rs"
    with assms(1-3) show "\<exists>rm'. snd (vote rs room_id voter vote_for) rid = Some rm' \<and>
        game_active rm' \<and> has_voted rm' v \<and> fst ` set (players rm') = fst ` set (players rm)"
      by simp
  next
    fix rid' v' t' rm'
    assume rm': "rs rid' = Some rm'" and v': "v' \<in> fst ` set (players rm')"
      and eff: "snd (vote rs room_id voter vote_for) = rs(rid' \<mapsto> record_vote rm' v' t')"
    show "\<exists>rm'. snd (vote rs room_id voter vote_for) rid = Some rm' \<and>
        game_active rm' \<and> has_voted rm' v \<and> fst ` set (players rm') = fst ` set (players rm)"
    proof (cases "rid' = rid")
      case True
      with rm' assms(1) have same: "rm' = rm" by simp
      have keys: "fst ` set (players (record_vote rm v' t')) = fst ` set (players rm)"
        using record_vote_keys [of rm v' t'] by (metis set_map)
      have "has_voted (record_vote rm v' t') v"
        using v' assms(3) by (simp add: same has_voted_record_vote)
      with assms(2) keys show ?thesis
        unfolding eff by (simp add: True same record_vote_frame)
    next
      case False
      with assms(1-3) show ?thesis unfolding eff by simp
    qed
  qed
next
  case (ResetDay room_id)
  with assms(4) have other: "room_id \<noteq> Some rid" by simp
  from reset_votes_effect [of rs room_id] other
  have "snd (reset_votes rs room_id) rid = rs rid" by (auto split: if_splits)
  with assms(1-3) show ?thesis unfolding ResetDay step.simps by simp
next
  case (TimerFires r room_id)
  with assms(4) have other: "room_id \<noteq> rid" by simp
  from end_voting_effect [of r rs room_id] other
  have "end_voting r rs room_id rid = rs rid" by (auto split: if_splits)
  with assms(1-3) show ?thesis unfolding TimerFires step.simps by simp
qed

lemma run_keeps_voted:
  assumes "rs rid = Some rm" and "game_active rm" and "has_voted rm v"
    and "list_all (keeps_day rid) es"
  shows "\<exists>rm'. run rs es rid = Some rm' \<and> game_active rm' \<and> has_voted rm' v \<and>
               fst ` set (players rm') = fst ` set (players rm)"
  using assms unfolding run_def
proof (induction es arbitrary: rs rm)
  case Nil
  then show ?case by simp
next
  case (Cons e es)
  from Cons.prems(4) have e: "keeps_day rid e" and es: "list_all (keeps_day rid) es"
    by simp_all
  from step_keeps_voted [of rs rid rm v e, OF Cons.prems(1-3) e] obtain rm1 where
    s1: "step rs e rid = Some rm1" and s2: "game_active rm1" and s3: "has_voted rm1 v"
    and s4: "fst ` set (players rm1) = fst ` set (players rm)"
    by blast
  from Cons.IH [of "step rs e" rm1, OF s1 s2 s3 es] s4 show ?case by simp
qed

lemma has_voted_cleared:
  "\<not> has_voted (rm\<lparr>players :=
        map (\<lambda>(name, st). (name, st\<lparr>voted_today := False\<rparr>)) (players rm)\<rparr>) v"
proof -
  have "map_of (map (\<lambda>(name, st). (name, st\<lparr>voted_today := False\<rparr>)) ps) v =
        map_option (\<lambda>st. st\<lparr>voted_today := False\<rparr>) (map_of ps v)"
    for ps :: "(string \<times> player_state) list"
    by (induction ps) auto
  then show ?thesis by (simp add: has_voted_def split: option.splits)
qed

lemma reset_votes_open:
  assumes "rs rid = Some rm" and "game_active rm"
  shows "reset_votes rs (Some rid) =
           ((Message ''Votes reset, new day started'', 200),
            rs(rid \<mapsto> rm\<lparr>players :=
                 map (\<lambda>(name, st). (name, st\<lparr>voted_today := False\<rparr>)) (players rm)\<rparr>))"
  using assms by (simp add: reset_votes_def rooms_get_def)

lemma after_first_vote_eval:
  "vote [''den'' \<mapsto> fresh_room] (Some ''den'') (Some ''A'') (Some ''B'') =
     ((Message ''A voted for B'', 200), after_first_vote)"
  "after_first_vote =
     [''den'' \<mapsto> \<lparr>players = [(''A'', \<lparr>is_bhadwa = False, voted_today = True\<rparr>),
                               (''B'', \<lparr>is_bhadwa = True, voted_today = False\<rparr>),
                               (''C'', \<lparr>is_bhadwa = False, voted_today = False\<rparr>)],
                    bhadwa = ''B'', votes = [(''B'', 1)], game_active = True, result = None\<rparr>]"
  by (simp_all add: after_first_vote_def vote_def rooms_get_def in_dict_def fresh_room_def)

text \<open>
  C5, as claimed, fails on a target that is not a player: \<^verbatim>\<open>vote\<close> looks the target
  up before it looks at \<^verbatim>\<open>voted_today\<close>, so the second vote of A, for the unknown
  Z, is answered with "Vote target not in room" and not with "You have already voted
  today".
\<close>

theorem second_vote_unknown_target_counterexample:
  "succeeded (fst (vote [''den'' \<mapsto> fresh_room] (Some ''den'') (Some ''A'') (Some ''B''))) \<and>
   snd (vote [''den'' \<mapsto> fresh_room] (Some ''den'') (Some ''A'') (Some ''B'')) = after_first_vote \<and>
   vote after_first_vote (Some ''den'') (Some ''A'') (Some ''Z'') =
     ((Error ''Vote target not in room'', 400), after_first_vote) \<and>
   fst (vote after_first_vote (Some ''den'') (Some ''A'') (Some ''Z'')) \<noteq>
     (Error ''You have already voted today'', 400)"
proof -
  have z: "vote after_first_vote (Some ''den'') (Some ''A'') (Some ''Z'') =
             ((Error ''Vote target not in room'', 400), after_first_vote)"
    by (simp add: after_first_vote_eval(2) vote_def rooms_get_def in_dict_def)
  show ?thesis
    by (intro conjI) (simp_all add: after_first_vote_eval(1) z)
qed

text \<open>
  C5, amended. After a successful vote by a player of a room, and after any further
  events that are neither a reset, a re-creation nor the close of that room, a vote by
  the same player is refused and changes nothing: with "You have already voted today"
  for every target that is a player of the room, with "Vote target not in room" for
  any other target. A reset of the room then succeeds, and after it the same player's
  vote succeeds for every target that is a player of the room.
\<close>

theorem one_vote_per_day:
  assumes "vote rs (Some rid) (Some v) vote_for = (resp, rs1)" and "succeeded resp"
    and "list_all (keeps_day rid) es"
  shows "\<exists>rm2. run rs1 es rid = Some rm2 \<and> game_active rm2 \<and> v \<in> fst ` set (players rm2) \<and>
           (\<forall>t. t \<in> fst ` set (players rm2) \<longrightarrow>
                vote (run rs1 es) (Some rid) (Some v) (Some t) =
                  ((Error ''You have already voted today'', 400), run rs1 es)) \<and>
           (\<forall>t. \<not> in_dict t (players rm2) \<longrightarrow>
                vote (run rs1 es) (Some rid) (Some v) t =
                  ((Error ''Vote target not in room'', 400), run rs1 es)) \<and>
           succeeded (fst (reset_votes (run rs1 es) (Some rid))) \<and>
           (\<forall>t. t \<in> fst ` set (players rm2) \<longrightarrow>
                succeeded (fst (vote (snd (reset_votes (run rs1 es) (Some rid)))
                                  (Some rid) (Some v) (Some t))))"
proof -
  from assms(1,2) obtain rid' v' t rm where
    "Some rid = Some rid'" "Some v = Some v'" and rm: "rs rid' = Some rm" "game_active rm"
    and v': "v' \<in> fst ` set (players rm)" and rs1: "rs1 = rs(rid' \<mapsto> record_vote rm v' t)"
    by (rule vote_succeededE)
  then have [simp]: "rid' = rid" "v' = v" by simp_all
  let ?rm1 = "record_vote rm v t"
  have a1: "rs1 rid = Some ?rm1" by (simp add: rs1)
  have a2: "game_active ?rm1" using rm(2) by (simp add: record_vote_frame)
  have a3: "has_voted ?rm1 v" using v' by (simp add: has_voted_record_vote)
  have k1: "fst ` set (players ?rm1) = fst ` set (players rm)"
    using record_vote_keys [of rm v t] by (metis set_map)
  from run_keeps_voted [of rs1 rid ?rm1 v es, OF a1 a2 a3 assms(3)] obtain rm2 where
    r: "run rs1 es rid = Some rm2" and act: "game_active rm2" and voted: "has_voted rm2 v"
    and keys: "fst ` set (players rm2) = fst ` set (players ?rm1)"
    by blast
  let ?rs2 = "run rs1 es"
  have v2: "v \<in> fst ` set (players rm2)" using v' by (simp add: keys k1)
  have again: "\<forall>t. t \<in> fst ` set (players rm2) \<longrightarrow>
                vote ?rs2 (Some rid) (Some v) (Some t) =
                  ((Error ''You have already voted today'', 400), ?rs2)"
    using vote_open [of ?rs2 rid rm2 v, OF r act v2] voted by simp
  have unknown: "\<forall>t. \<not> in_dict t (players rm2) \<longrightarrow>
                vote ?rs2 (Some rid) (Some v) t =
                  ((Error ''Vote target not in room'', 400), ?rs2)"
    using r act v2 by (simp add: vote_def rooms_get_def in_dict_def)
  let ?rm3 = "rm2\<lparr>players := map (\<lambda>(name, st). (name, st\<lparr>voted_today := False\<rparr>)) (players rm2)\<rparr>"
  let ?rs3 = "?rs2(rid \<mapsto> ?rm3)"
  have reset: "reset_votes ?rs2 (Some rid) = ((Message ''Votes reset, new day started'', 200), ?rs3)"
    using r act by (rule reset_votes_open)
  have ok: "succeeded (fst (reset_votes ?rs2 (Some rid)))" by (simp add: reset)
  have "map fst (players ?rm3) = map fst (players rm2)" by (simp add: comp_def case_prod_beta)
  then have k3: "fst ` set (players ?rm3) = fst ` set (players rm2)" by (metis set_map)
  have b1: "?rs3 rid = Some ?rm3" by simp
  have b2: "game_active ?rm3" using act by simp
  have b3: "v \<in> fst ` set (players ?rm3)" using v2 unfolding k3 .
  have fresh: "\<not> has_voted ?rm3 v" by (rule has_voted_cleared)
  have anew: "\<forall>t. t \<in> fst ` set (players rm2) \<longrightarrow>
                succeeded (fst (vote (snd (reset_votes ?rs2 (Some rid))) (Some rid) (Some v) (Some t)))"
  proof (intro allI impI)
    fix t assume "t \<in> fst ` set (players rm2)"
    then have t3: "t \<in> fst ` set (players ?rm3)" unfolding k3 .
    from vote_open [of ?rs3 rid ?rm3 v t, OF b1 b2 b3 t3] fresh
    have "succeeded (fst (vote ?rs3 (Some rid) (Some v) (Some t)))" by simp
    then show "succeeded (fst (vote (snd (reset_votes ?rs2 (Some rid))) (Some rid) (Some v) (Some t)))"
      by (simp add: reset)
  qed
  from r act v2 again unknown ok anew show ?thesis by (intro exI [of _ rm2] conjI)
qed

theorem one_vote_per_day_witness:
  "succeeded (fst (vote [''den'' \<mapsto> fresh_room] (Some ''den'') (Some ''A'') (Some ''B''))) \<and>
   list_all (keeps_day ''den'')
     [CastVote (Some ''den'') (Some ''B'') (Some ''A''), TimerFires 0 ''cave''] \<and>
   vote (run after_first_vote [CastVote (Some ''den'') (Some ''B'') (Some ''A''), TimerFires 0 ''cave''])
        (Some ''den'') (Some ''A'') (Some ''C'') =
     ((Error ''You have already voted today'', 400),
      run after_first_vote [CastVote (Some ''den'') (Some ''B'') (Some ''A''), TimerFires 0 ''cave'']) \<and>
   fst (vote (snd (reset_votes
                (run after_first_vote
                   [CastVote (Some ''den'') (Some ''B'') (Some ''A''), TimerFires 0 ''cave''])
                (Some ''den'')))
          (Some ''den'') (Some ''A'') (Some ''C'')) = (Message ''A voted for C'', 200) \<and>
   (\<exists>rm2. run after_first_vote
             [CastVote (Some ''den'') (Some ''B'') (Some ''A''), TimerFires 0 ''cave''] ''den'' =
           Some rm2 \<and>
      game_active rm2 \<and> ''A'' \<in> fst ` set (players rm2) \<and>
      (\<forall>t. t \<in> fst ` set (players rm2) \<longrightarrow>
           vote (run after_first_vote
                   [CastVote (Some ''den'') (Some ''B'') (Some ''A''), TimerFires 0 ''cave''])
                (Some ''den'') (Some ''A'') (Some t) =
             ((Error ''You have already voted today'', 400),
              run after_first_vote
                [CastVote (Some ''den'') (Some ''B'') (Some ''A''), TimerFires 0 ''cave''])) \<and>
      (\<forall>t. \<not> in_dict t (players rm2) \<longrightarrow>
           vote (run after_first_vote
                   [CastVote (Some ''den'') (Some ''B'') (Some ''A''), TimerFires 0 ''cave''])
                (Some ''den'') (Some ''A'') t =
             ((Error ''Vote target not in room'', 400),
              run after_first_vote
                [CastVote (Some ''den'') (Some ''B'') (Some ''A''), TimerFires 0 ''cave''])) \<and>
      succeeded (fst (reset_votes
                        (run after_first_vote
                           [CastVote (Some ''den'') (Some ''B'') (Some ''A''), TimerFires 0 ''cave''])
                        (Some ''den''))) \<and>
      (\<forall>t. t \<in> fst ` set (players rm2) \<longrightarrow>
           succeeded (fst (vote (snd (reset_votes
                                        (run after_first_vote
                                           [CastVote (Some ''den'') (Some ''B'') (Some ''A''),
                                            TimerFires 0 ''cave''])
                                        (Some ''den'')))
                             (Some ''den'') (Some ''A'') (Some t)))))"
proof -
  let ?es = "[CastVote (Some ''den'') (Some ''B'') (Some ''A''), TimerFires 0 ''cave'']"
  have first: "vote [''den'' \<mapsto> fresh_room] (Some ''den'') (Some ''A'') (Some ''B'') =
                 ((Message ''A voted for B'', 200), after_first_vote)"
    by (rule after_first_vote_eval(1))
  have ok1: "succeeded (Message ''A voted for B'', 200)" by simp
  have ok: "succeeded (fst (vote [''den'' \<mapsto> fresh_room] (Some ''den'') (Some ''A'') (Some ''B'')))"
    by (simp add: first)
  have quiet: "list_all (keeps_day ''den'') ?es" by simp
  have later: "run after_first_vote ?es =
     [''den'' \<mapsto> \<lparr>players = [(''A'', \<lparr>is_bhadwa = False, voted_today = True\<rparr>),
                               (''B'', \<lparr>is_bhadwa = True, voted_today = True\<rparr>),
                               (''C'', \<lparr>is_bhadwa = False, voted_today = False\<rparr>)],
                    bhadwa = ''B'', votes = [(''B'', 1), (''A'', 1)],
                    game_active = True, result = None\<rparr>]"
    by (simp add: run_def after_first_vote_eval(2) vote_def rooms_get_def in_dict_def
                  end_voting_def)
  have again: "vote (run after_first_vote ?es) (Some ''den'') (Some ''A'') (Some ''C'') =
     ((Error ''You have already voted today'', 400), run after_first_vote ?es)"
    unfolding later by (simp add: vote_def rooms_get_def in_dict_def)
  have anew: "fst (vote (snd (reset_votes (run after_first_vote ?es) (Some ''den'')))
          (Some ''den'') (Some ''A'') (Some ''C'')) = (Message ''A voted for C'', 200)"
    unfolding later by (simp add: reset_votes_def vote_def rooms_get_def in_dict_def)
  show ?thesis
    by (intro conjI)
       (rule ok, rule quiet, rule again, rule anew,
        rule one_vote_per_day [of "[''den'' \<mapsto> fresh_room]" "''den''" "''A''" "Some ''B''"
                                  "(Message ''A voted for B'', 200)" after_first_vote ?es,
                               OF first ok1 quiet])
qed

end
